theory Spec2Isabelle
  imports Main
begin

section \<open>Python built-ins used by the client\<close>

text \<open>
  Strings are Python \<open>str\<close> values restricted to the code points 0 to 255 (HTTP header
  values as \<open>requests\<close> decodes them, and the Latin-1 part of the texts of the API).
\<close>

text \<open>
  The white space \<open>int\<close> strips from a string: tab to carriage return, the space,
  and the code points 133 and 160.
\<close>

definition is_space :: "char \<Rightarrow> bool" where
  "is_space ch =
     (let n = (of_char ch :: nat)
      in (9 \<le> n \<and> n \<le> 13) \<or> n = 32 \<or> n = 133 \<or> n = 160)"

definition is_digit :: "char \<Rightarrow> bool" where
  "is_digit ch = (let n = (of_char ch :: nat) in 48 \<le> n \<and> n \<le> 57)"

definition digit_val :: "char \<Rightarrow> nat" where
  "digit_val ch = (of_char ch :: nat) - 48"

definition py_strip :: "string \<Rightarrow> string" where
  "py_strip s = rev (dropWhile is_space (rev (dropWhile is_space s)))"

text \<open>
  The decimal digits of an integer literal: digits, with single underscores allowed
  between two digits.
\<close>

fun parse_rest :: "nat \<Rightarrow> string \<Rightarrow> nat option" where
  "parse_rest acc [] = Some acc"
| "parse_rest acc [c] = (if is_digit c then Some (10 * acc + digit_val c) else None)"
| "parse_rest acc (c # d # ds) =
     (if is_digit c then parse_rest (10 * acc + digit_val c) (d # ds)
      else if c = CHR ''_'' \<and> is_digit d then parse_rest (10 * acc + digit_val d) ds
      else None)"

definition parse_digits :: "string \<Rightarrow> nat option" where
  "parse_digits s =
     (case s of [] \<Rightarrow> None
      | c # cs \<Rightarrow> if is_digit c then parse_rest (digit_val c) cs else None)"

text \<open>
  \<open>int(s)\<close> for a string: \<open>None\<close> stands for the \<open>ValueError\<close> it raises, also
  for a string of more digits than the interpreter converts (4300 unless configured
  otherwise, which the utility does not do).
\<close>

definition int_max_str_digits :: nat where
  "int_max_str_digits = 4300"

definition py_int :: "string \<Rightarrow> int option" where
  "py_int s =
     (let t = py_strip s
      in if int_max_str_digits < length (filter is_digit t) then None
         else case t of
           [] \<Rightarrow> None
         | c # cs \<Rightarrow>
             if c = CHR ''+'' then map_option int (parse_digits cs)
             else if c = CHR ''-'' then map_option (\<lambda>n. - int n) (parse_digits cs)
             else map_option int (parse_digits t))"

text \<open>
  \<open>str.lower\<close> on the code points 0 to 255: the letters A to Z and the capital
  letters from 192 to 222 (215, the multiplication sign, is none) move up by 32.
\<close>

definition upper_letters :: string where
  "upper_letters =
     ''ABCDEFGHIJKLMNOPQRSTUVWXYZ'' @
     [CHR 0xC0, CHR 0xC1, CHR 0xC2, CHR 0xC3, CHR 0xC4, CHR 0xC5, CHR 0xC6,
      CHR 0xC7, CHR 0xC8, CHR 0xC9, CHR 0xCA, CHR 0xCB, CHR 0xCC, CHR 0xCD,
      CHR 0xCE, CHR 0xCF, CHR 0xD0, CHR 0xD1, CHR 0xD2, CHR 0xD3, CHR 0xD4,
      CHR 0xD5, CHR 0xD6, CHR 0xD8, CHR 0xD9, CHR 0xDA, CHR 0xDB, CHR 0xDC,
      CHR 0xDD, CHR 0xDE]"

definition lower_letters :: string where
  "lower_letters =
     ''abcdefghijklmnopqrstuvwxyz'' @
     [CHR 0xE0, CHR 0xE1, CHR 0xE2, CHR 0xE3, CHR 0xE4, CHR 0xE5, CHR 0xE6,
      CHR 0xE7, CHR 0xE8, CHR 0xE9, CHR 0xEA, CHR 0xEB, CHR 0xEC, CHR 0xED,
      CHR 0xEE, CHR 0xEF, CHR 0xF0, CHR 0xF1, CHR 0xF2, CHR 0xF3, CHR 0xF4,
      CHR 0xF5, CHR 0xF6, CHR 0xF8, CHR 0xF9, CHR 0xFA, CHR 0xFB, CHR 0xFC,
      CHR 0xFD, CHR 0xFE]"

definition lower_char :: "char \<Rightarrow> char" where
  "lower_char ch =
     (case map_of (zip upper_letters lower_letters) ch of
        None \<Rightarrow> ch
      | Some l \<Rightarrow> l)"

definition lower :: "string \<Rightarrow> string" where
  "lower s = map lower_char s"

text \<open>\<open>s.startswith(p)\<close>, and the substring test \<open>p in s\<close>.\<close>

definition startswith :: "string \<Rightarrow> string \<Rightarrow> bool" where
  "startswith s p = (take (length p) s = p)"

fun contains :: "string \<Rightarrow> string \<Rightarrow> bool" where
  "contains [] p = (p = [])"
| "contains (c # cs) p = (startswith (c # cs) p \<or> contains cs p)"

text \<open>\<open>s.replace('Z', '+00:00')\<close>.\<close>

definition replace_Z :: "string \<Rightarrow> string" where
  "replace_Z s = concat (map (\<lambda>ch. if ch = CHR ''Z'' then ''+00:00'' else [ch]) s)"

section \<open>The HTTP session, the clock and the exceptions\<close>

text \<open>
  The exceptions that reach the client's handlers. \<open>HTTPError\<close> (raised by
  \<open>raise_for_status\<close>, carrying the status code) and \<open>ConnectionError\<close> (any
  transport failure of \<open>session.request\<close>) are the \<open>RequestException\<close>s; the others
  are plain \<open>Exception\<close>s. \<open>MaxRetriesExceeded\<close> is
  \<open>Exception("Max retries exceeded")\<close>.
\<close>

datatype exn =
    HTTPError int
  | ConnectionError
  | ValueError
  | OverflowError
  | KeyError
  | OSError
  | MaxRetriesExceeded

text \<open>The body of the waiver-creation request (\<open>waiver_data\<close> of \<open>add_waiver\<close>).\<close>

record waiver_data =
  wd_reason :: string
  wd_waiver_type :: string
  wd_expiry :: int
  wd_justification :: string
  wd_issue_id :: string

record request =
  http_method :: string
  url :: string
  params :: "(string \<times> string) list"
  json_body :: "waiver_data option"

text \<open>
  A response as the client reads it: the status code, the \<open>Retry-After\<close> header
  (\<open>None\<close> when absent) and the decoded JSON document (\<open>None\<close> when
  \<open>response.json()\<close> raises). The type of the document depends on the endpoint.
\<close>

record 'b response =
  status_code :: int
  retry_after :: "string option"
  json :: "'b option"

datatype 'b outcome = Response "'b response" | Failure

text \<open>
  An endpoint of the remote service answers the \<open>n\<close>-th request of the run:
  \<open>Failure\<close> is a transport failure of \<open>session.request\<close>.
\<close>

type_synonym 'b endpoint = "nat \<Rightarrow> request \<Rightarrow> 'b outcome"

text \<open>
  The state of a run: the requests sent so far, the lengths of the sleeps taken, the
  number of clock readings taken, and the platform's answer to a long sleep:
  \<open>refused s k n\<close> says whether, after \<open>k\<close> sleeps, it refuses a sleep of \<open>n\<close>
  seconds.
\<close>

record world =
  sent :: "request list"
  slept :: "int list"
  ticks :: nat
  refused :: "nat \<Rightarrow> int \<Rightarrow> bool"

definition session_request :: "'b endpoint \<Rightarrow> request \<Rightarrow> world \<Rightarrow> 'b outcome \<times> world" where
  "session_request srv rq s = (srv (length (sent s)) rq, s\<lparr>sent := sent s @ [rq]\<rparr>)"

text \<open>
  \<open>time.sleep(n)\<close> for an integer. A length that does not fit the interpreter's
  nanosecond clock, in either direction, is an \<open>OverflowError\<close>; a negative length
  is a \<open>ValueError\<close>. Otherwise the platform sleeps until its monotonic clock has
  advanced by the length, and refuses with an \<open>OSError\<close> a sleep that would end
  beyond the range of that clock, \<open>sleep_max\<close> seconds after boot: whether a long
  sleep is refused depends on the time since boot and is the platform's answer
  \<open>refused\<close>. A length of at most \<open>sleep_sure\<close> seconds (68 years) is taken to
  fit.
\<close>

definition sleep_max :: int where
  "sleep_max = 9223372036"

definition sleep_sure :: int where
  "sleep_sure = 2147483647"

definition time_sleep :: "int \<Rightarrow> world \<Rightarrow> (exn + unit) \<times> world" where
  "time_sleep n s =
     (if n < - sleep_max \<or> sleep_max < n then (Inl OverflowError, s)
      else if n < 0 then (Inl ValueError, s)
      else if sleep_sure < n \<and> refused s (length (slept s)) n then (Inl OSError, s)
      else (Inr (), s\<lparr>slept := slept s @ [n]\<rparr>))"

text \<open>\<open>response.raise_for_status()\<close>: client and server errors raise.\<close>

definition raise_for_status :: "'b response \<Rightarrow> exn + unit" where
  "raise_for_status r =
     (if 400 \<le> status_code r \<and> status_code r < 600 then Inl (HTTPError (status_code r))
      else Inr ())"

section \<open>The request executor\<close>

definition max_retries :: nat where
  "max_retries = 3"

definition backoff_factor :: int where
  "backoff_factor = 1"

text \<open>
  \<open>int(response.headers.get('Retry-After', 60))\<close>.
\<close>

definition retry_after_seconds :: "'b response \<Rightarrow> exn + int" where
  "retry_after_seconds r =
     (case retry_after r of
        None \<Rightarrow> Inr 60
      | Some v \<Rightarrow> (case py_int v of None \<Rightarrow> Inl ValueError | Some n \<Rightarrow> Inr n))"

text \<open>
  The handler \<open>except requests.exceptions.RequestException\<close>: on the last attempt the
  exception is raised again, otherwise the executor sleeps
  \<open>backoff_factor * (2 ** attempt)\<close> seconds and the loop goes on.
\<close>

definition on_request_exception :: "nat \<Rightarrow> exn \<Rightarrow> world \<Rightarrow> (exn + unit) \<times> world" where
  "on_request_exception attempt e s =
     (if attempt = max_retries - 1 then (Inl e, s)
      else time_sleep (backoff_factor * 2 ^ attempt) s)"

text \<open>
  The body of \<open>for attempt in range(max_retries)\<close> of \<open>_make_request\<close> in
  \<open>snyk_utility.py\<close> (both revisions are the same), over the attempts still to
  run. When the loop runs out, \<open>Max retries exceeded\<close> is raised.
\<close>

fun request_attempts ::
  "'b endpoint \<Rightarrow> request \<Rightarrow> nat list \<Rightarrow> world \<Rightarrow> (exn + 'b response) \<times> world" where
  "request_attempts srv rq [] s = (Inl MaxRetriesExceeded, s)"
| "request_attempts srv rq (attempt # rest) s =
     (case session_request srv rq s of
        (Failure, s1) \<Rightarrow>
          (case on_request_exception attempt ConnectionError s1 of
             (Inl e, s2) \<Rightarrow> (Inl e, s2)
           | (Inr _, s2) \<Rightarrow> request_attempts srv rq rest s2)
      | (Response r, s1) \<Rightarrow>
          if status_code r = 429 then
            (case retry_after_seconds r of
               Inl e \<Rightarrow> (Inl e, s1)
             | Inr n \<Rightarrow>
                 (case time_sleep n s1 of
                    (Inl e, s2) \<Rightarrow> (Inl e, s2)
                  | (Inr _, s2) \<Rightarrow> request_attempts srv rq rest s2))
          else
            (case raise_for_status r of
               Inr _ \<Rightarrow> (Inr r, s1)
             | Inl e \<Rightarrow>
                 (case on_request_exception attempt e s1 of
                    (Inl e', s2) \<Rightarrow> (Inl e', s2)
                  | (Inr _, s2) \<Rightarrow> request_attempts srv rq rest s2)))"

definition make_request :: "'b endpoint \<Rightarrow> request \<Rightarrow> world \<Rightarrow> (exn + 'b response) \<times> world" where
  "make_request srv rq s = request_attempts srv rq [0..<max_retries] s"

text \<open>
  \<open>_make_request\<close> of \<open>snyk_auth_debug.py\<close>: a 401 is raised at once, from the
  \<open>try\<close> block and again by the \<open>HTTPError\<close> handler; the other branches are those
  of \<open>snyk_utility.py\<close>.
\<close>

definition on_http_error_debug :: "nat \<Rightarrow> int \<Rightarrow> world \<Rightarrow> (exn + unit) \<times> world" where
  "on_http_error_debug attempt code s =
     (if code = 401 then (Inl (HTTPError code), s)
      else if attempt = max_retries - 1 then (Inl (HTTPError code), s)
      else time_sleep (backoff_factor * 2 ^ attempt) s)"

fun request_attempts_debug ::
  "'b endpoint \<Rightarrow> request \<Rightarrow> nat list \<Rightarrow> world \<Rightarrow> (exn + 'b response) \<times> world" where
  "request_attempts_debug srv rq [] s = (Inl MaxRetriesExceeded, s)"
| "request_attempts_debug srv rq (attempt # rest) s =
     (case session_request srv rq s of
        (Failure, s1) \<Rightarrow>
          (case on_request_exception attempt ConnectionError s1 of
             (Inl e, s2) \<Rightarrow> (Inl e, s2)
           | (Inr _, s2) \<Rightarrow> request_attempts_debug srv rq rest s2)
      | (Response r, s1) \<Rightarrow>
          if status_code r = 401 then
            (case on_http_error_debug attempt (status_code r) s1 of
               (Inl e, s2) \<Rightarrow> (Inl e, s2)
             | (Inr _, s2) \<Rightarrow> request_attempts_debug srv rq rest s2)
          else if status_code r = 429 then
            (case retry_after_seconds r of
               Inl e \<Rightarrow> (Inl e, s1)
             | Inr n \<Rightarrow>
                 (case time_sleep n s1 of
                    (Inl e, s2) \<Rightarrow> (Inl e, s2)
                  | (Inr _, s2) \<Rightarrow> request_attempts_debug srv rq rest s2))
          else
            (case raise_for_status r of
               Inr _ \<Rightarrow> (Inr r, s1)
             | Inl e \<Rightarrow>
                 (case on_http_error_debug attempt (status_code r) s1 of
                    (Inl e', s2) \<Rightarrow> (Inl e', s2)
                  | (Inr _, s2) \<Rightarrow> request_attempts_debug srv rq rest s2)))"

definition make_request_debug ::
  "'b endpoint \<Rightarrow> request \<Rightarrow> world \<Rightarrow> (exn + 'b response) \<times> world" where
  "make_request_debug srv rq s = request_attempts_debug srv rq [0..<max_retries] s"



section \<open>The domain model\<close>

text \<open>
  The dataclasses \<open>WaiverTemplate\<close>, \<open>SnykIssue\<close> and \<open>SnykWaiver\<close>; the fields keep
  their names behind the prefixes \<open>wt_\<close>, \<open>si_\<close> and \<open>sw_\<close>.
\<close>

record WaiverTemplate =
  wt_name :: string
  wt_description :: string
  wt_waiver_type :: string
  wt_default_days :: int
  wt_justification :: string
  wt_category :: string

record SnykIssue =
  si_id :: string
  si_title :: string
  si_severity :: string
  si_issue_type :: string
  si_project_id :: string
  si_project_name :: string
  si_package_name :: string
  si_package_version :: string
  si_introduced_date :: string

record SnykWaiver =
  sw_id :: string
  sw_issue_id :: string
  sw_project_id :: string
  sw_project_name :: string
  sw_reason :: string
  sw_waiver_type :: string
  sw_created_date :: string
  sw_expiry_date :: string
  sw_created_by :: string
  sw_is_active :: bool
  sw_issue_title :: string
  sw_issue_severity :: string

text \<open>
  \<open>SnykIssue.__eq__\<close> on two issues, and \<open>SnykIssue.__hash__\<close>: the built-in
  \<open>hash\<close> of the tuple is the parameter \<open>h\<close>.
\<close>

definition issue_eq :: "SnykIssue \<Rightarrow> SnykIssue \<Rightarrow> bool" where
  "issue_eq a b =
     (si_id a = si_id b \<and> si_package_name a = si_package_name b
      \<and> si_package_version a = si_package_version b)"


definition issue_key :: "SnykIssue \<Rightarrow> string \<times> string \<times> string" where
  "issue_key a = (si_id a, si_package_name a, si_package_version a)"

text \<open>
  A Python \<open>set\<close> of issues, held as the list of its members: \<open>add\<close> keeps the
  member already present when an equal one arrives, \<open>update\<close> adds the elements of a
  list in turn. The order of the list is not observable in Python.
\<close>

definition set_add :: "SnykIssue list \<Rightarrow> SnykIssue \<Rightarrow> SnykIssue list" where
  "set_add members a = (if list_ex (issue_eq a) members then members else members @ [a])"

definition set_update :: "SnykIssue list \<Rightarrow> SnykIssue list \<Rightarrow> SnykIssue list" where
  "set_update members new = foldl set_add members new"

section \<open>The template manager\<close>

text \<open>
  The source file holds two revisions of the utility; their built-in template sets
  differ (\<open>compensating_controls\<close> is in the second only), and so does
  \<open>get_project_issues\<close>.
\<close>

datatype revision = First | Second

definition load_default_templates :: "revision \<Rightarrow> WaiverTemplate list" where
  "load_default_templates rv =
     (case rv of
        First \<Rightarrow>
     [\<lparr>wt_name = ''false_positive'',
       wt_description = ''False Positive - Issue not applicable to our use case'',
       wt_waiver_type = ''not-applicable'',
       wt_default_days = 365,
       wt_justification = ''After analysis, this vulnerability does not apply to our specific implementation or usage pattern.'',
       wt_category = ''analysis''\<rparr>,
      \<lparr>wt_name = ''dev_dependency'',
       wt_description = ''Development Dependency - Not in production'',
       wt_waiver_type = ''not-applicable'',
       wt_default_days = 180,
       wt_justification = ''This vulnerability exists in a development-only dependency and does not affect production code.'',
       wt_category = ''environment''\<rparr>,
      \<lparr>wt_name = ''upgrade_planned'',
       wt_description = ''Upgrade Planned - Fix scheduled'',
       wt_waiver_type = ''temporary'',
       wt_default_days = 90,
       wt_justification = ''Upgrade to resolve this vulnerability is planned and scheduled for the next release cycle.'',
       wt_category = ''remediation''\<rparr>,
      \<lparr>wt_name = ''no_exploit_path'',
       wt_description = ''No Exploit Path - Code path not accessible'',
       wt_waiver_type = ''not-applicable'',
       wt_default_days = 365,
       wt_justification = ''The vulnerable code path is not accessible in our application architecture.'',
       wt_category = ''analysis''\<rparr>,
      \<lparr>wt_name = ''low_risk_accepted'',
       wt_description = ''Low Risk Accepted - Business decision to accept'',
       wt_waiver_type = ''wont-fix'',
       wt_default_days = 365,
       wt_justification = ''After risk assessment, business has decided to accept this low-risk vulnerability.'',
       wt_category = ''business''\<rparr>,
      \<lparr>wt_name = ''legacy_system'',
       wt_description = ''Legacy System - Cannot be updated'',
       wt_waiver_type = ''wont-fix'',
       wt_default_days = 730,
       wt_justification = ''This is a legacy system that cannot be updated due to business constraints.'',
       wt_category = ''legacy''\<rparr>,
      \<lparr>wt_name = ''vendor_patch_pending'',
       wt_description = ''Vendor Patch Pending - Waiting for upstream fix'',
       wt_waiver_type = ''temporary'',
       wt_default_days = 180,
       wt_justification = ''Waiting for vendor to release a patch for this vulnerability.'',
       wt_category = ''vendor''\<rparr>,
      \<lparr>wt_name = ''test_environment'',
       wt_description = ''Test Environment - Not production critical'',
       wt_waiver_type = ''not-applicable'',
       wt_default_days = 180,
       wt_justification = ''This vulnerability exists in test environment and does not impact production security.'',
       wt_category = ''environment''\<rparr>,
      \<lparr>wt_name = ''internal_tool'',
       wt_description = ''Internal Tool - Limited exposure'',
       wt_waiver_type = ''wont-fix'',
       wt_default_days = 365,
       wt_justification = ''This is an internal tool with limited exposure and accepted risk.'',
       wt_category = ''business''\<rparr>]
      | Second \<Rightarrow>
     [\<lparr>wt_name = ''false_positive'',
       wt_description = ''False Positive - Issue not applicable to our use case'',
       wt_waiver_type = ''not-applicable'',
       wt_default_days = 365,
       wt_justification = ''After analysis, this vulnerability does not apply to our specific implementation or usage pattern.'',
       wt_category = ''analysis''\<rparr>,
      \<lparr>wt_name = ''dev_dependency'',
       wt_description = ''Development Dependency - Not in production'',
       wt_waiver_type = ''not-applicable'',
       wt_default_days = 180,
       wt_justification = ''This vulnerability exists in a development-only dependency and does not affect production code.'',
       wt_category = ''environment''\<rparr>,
      \<lparr>wt_name = ''upgrade_planned'',
       wt_description = ''Upgrade Planned - Fix scheduled'',
       wt_waiver_type = ''temporary'',
       wt_default_days = 90,
       wt_justification = ''Upgrade to resolve this vulnerability is planned and scheduled for the next release cycle.'',
       wt_category = ''remediation''\<rparr>,
      \<lparr>wt_name = ''no_exploit_path'',
       wt_description = ''No Exploit Path - Code path not accessible'',
       wt_waiver_type = ''not-applicable'',
       wt_default_days = 365,
       wt_justification = ''The vulnerable code path is not accessible in our application architecture.'',
       wt_category = ''analysis''\<rparr>,
      \<lparr>wt_name = ''compensating_controls'',
       wt_description = ''Compensating Controls - Alternative protections in place'',
       wt_waiver_type = ''wont-fix'',
       wt_default_days = 365,
       wt_justification = ''Compensating security controls are in place that mitigate this vulnerability.'',
       wt_category = ''mitigation''\<rparr>,
      \<lparr>wt_name = ''low_risk_accepted'',
       wt_description = ''Low Risk Accepted - Business decision to accept'',
       wt_waiver_type = ''wont-fix'',
       wt_default_days = 365,
       wt_justification = ''After risk assessment, business has decided to accept this low-risk vulnerability.'',
       wt_category = ''business''\<rparr>,
      \<lparr>wt_name = ''legacy_system'',
       wt_description = ''Legacy System - Cannot be updated'',
       wt_waiver_type = ''wont-fix'',
       wt_default_days = 730,
       wt_justification = ''This is a legacy system that cannot be updated due to business constraints.'',
       wt_category = ''legacy''\<rparr>,
      \<lparr>wt_name = ''vendor_patch_pending'',
       wt_description = ''Vendor Patch Pending - Waiting for upstream fix'',
       wt_waiver_type = ''temporary'',
       wt_default_days = 180,
       wt_justification = ''Waiting for vendor to release a patch for this vulnerability.'',
       wt_category = ''vendor''\<rparr>,
      \<lparr>wt_name = ''test_environment'',
       wt_description = ''Test Environment - Not production critical'',
       wt_waiver_type = ''not-applicable'',
       wt_default_days = 180,
       wt_justification = ''This vulnerability exists in test environment and does not impact production security.'',
       wt_category = ''environment''\<rparr>,
      \<lparr>wt_name = ''internal_tool'',
       wt_description = ''Internal Tool - Limited exposure'',
       wt_waiver_type = ''wont-fix'',
       wt_default_days = 365,
       wt_justification = ''This is an internal tool with limited exposure and accepted risk.'',
       wt_category = ''business''\<rparr>])"

text \<open>
  The JSON file of the custom templates, and the manager: its template list, the file
  (\<open>None\<close> when it does not exist) and whether the file can be opened for writing.
\<close>

record templates_json =
  custom_templates :: "WaiverTemplate list"
  last_updated :: int

record manager =
  templates :: "WaiverTemplate list"
  templates_file :: "templates_json option"
  writable :: bool

definition default_names :: "revision \<Rightarrow> string set" where
  "default_names rv = set (map wt_name (load_default_templates rv))"

text \<open>
  \<open>save_custom_templates\<close>, at the clock reading \<open>now\<close>; \<open>open\<close> raises
  \<open>OSError\<close> on a file that cannot be written.
\<close>

definition save_custom_templates :: "revision \<Rightarrow> int \<Rightarrow> manager \<Rightarrow> exn + manager" where
  "save_custom_templates rv now m =
     (let custom = filter (\<lambda>t. wt_name t \<notin> default_names rv) (templates m);
          data = \<lparr>custom_templates = custom, last_updated = now\<rparr>
      in if writable m then Inr (m\<lparr>templates_file := Some data\<rparr>) else Inl OSError)"

text \<open>
  The loop of \<open>remove_template\<close>: the list without its first template of that name,
  \<open>None\<close> when there is none.
\<close>

fun delete_first :: "string \<Rightarrow> WaiverTemplate list \<Rightarrow> WaiverTemplate list option" where
  "delete_first name [] = None"
| "delete_first name (t # ts) =
     (if wt_name t = name then Some ts
      else map_option (\<lambda>ts'. t # ts') (delete_first name ts))"

definition remove_template :: "revision \<Rightarrow> string \<Rightarrow> int \<Rightarrow> manager \<Rightarrow> (exn + bool) \<times> manager" where
  "remove_template rv name now m =
     (if name \<in> default_names rv then (Inr False, m)
      else case delete_first name (templates m) of
             None \<Rightarrow> (Inr False, m)
           | Some ts \<Rightarrow>
               (case save_custom_templates rv now (m\<lparr>templates := ts\<rparr>) of
                  Inl e \<Rightarrow> (Inl e, m\<lparr>templates := ts\<rparr>)
                | Inr m' \<Rightarrow> (Inr True, m')))"

section \<open>The API client\<close>

text \<open>
  The JSON documents of the API, as far as the client reads them. They have the shape
  of the REST schema (objects where the client calls \<open>get\<close>, lists where it
  iterates, strings for the attributes kept in the dataclasses); a key that may be
  absent is an \<open>option\<close>.
\<close>

text \<open>
  The project document: \<open>pd_name\<close> is what
  \<open>project_data.get('data', {}).get('attributes', {}).get('name')\<close> finds.
\<close>

record project_doc =
  pd_name :: "string option"

text \<open>
  One element of the issue list. \<open>ij_problems\<close> is \<open>None\<close> when
  \<open>'problems'\<close> is not in the relationships, otherwise the list
  \<open>relationships['problems'].get('data', [])\<close>, each problem given by its \<open>'id'\<close>
  entry (\<open>None\<close> when it has none).
\<close>

record issue_json =
  ij_id :: "string option"
  ij_title :: "string option"
  ij_severity :: "string option"
  ij_type :: "string option"
  ij_created_at :: "string option"
  ij_problems :: "string option list option"

text \<open>The document of a single issue, read by \<open>get_all_waivers\<close>.\<close>

record issue_detail =
  idt_title :: "string option"
  idt_severity :: "string option"

text \<open>
  One element of a waiver list. \<open>wj_issue\<close> is \<open>None\<close> when \<open>'issue'\<close> is not in
  the relationships, otherwise what \<open>relationships['issue'].get('data', {}).get('id')\<close>
  finds.
\<close>

record waiver_json =
  wj_id :: "string option"
  wj_expiry :: "string option"
  wj_reason :: "string option"
  wj_waiver_type :: "string option"
  wj_created :: "string option"
  wj_created_by :: "string option"
  wj_issue :: "string option option"

text \<open>
  The client: its organisation and base URL, and its surroundings: the remote
  endpoints by the document they answer with (\<open>plain_api\<close> for the requests whose
  body is not read), the clock (the value of the \<open>n\<close>-th reading, in microseconds
  since the first instant a \<open>datetime\<close> can hold) and the library's
  \<open>datetime.fromisoformat\<close> (\<open>None\<close> when it raises).
\<close>

record client =
  org_id :: string
  base_url :: string
  projects_api :: "project_doc endpoint"
  issues_api :: "issue_json list endpoint"
  issue_api :: "issue_detail endpoint"
  waivers_api :: "waiver_json list endpoint"
  plain_api :: "unit endpoint"
  clock :: "nat \<Rightarrow> int"
  fromisoformat :: "string \<Rightarrow> int option"

text \<open>\<open>dict.get(key, default)\<close> on an entry that may be absent.\<close>

definition get_or :: "'a option \<Rightarrow> 'a \<Rightarrow> 'a" where
  "get_or entry dflt = (case entry of None \<Rightarrow> dflt | Some v \<Rightarrow> v)"

text \<open>The request for \<open>url = f"{self.base_url}{endpoint}"\<close> with no keyword arguments.\<close>

definition api_request :: "client \<Rightarrow> string \<Rightarrow> string \<Rightarrow> request" where
  "api_request c meth endpoint =
     \<lparr>http_method = meth, url = base_url c @ endpoint, params = [], json_body = None\<rparr>"

definition datetime_now :: "client \<Rightarrow> world \<Rightarrow> int \<times> world" where
  "datetime_now c s = (clock c (ticks s), s\<lparr>ticks := Suc (ticks s)\<rparr>)"

text \<open>
  \<open>now + timedelta(days=days)\<close>: a \<open>timedelta\<close> holds at most 999999999 days, a
  \<open>datetime\<close> the instants of the years 1 to 9999; beyond either is an
  \<open>OverflowError\<close>.
\<close>

definition datetime_end :: int where
  "datetime_end = 3652059 * 86400000000"

definition add_days :: "int \<Rightarrow> int \<Rightarrow> exn + int" where
  "add_days now days =
     (if days < - 999999999 \<or> 999999999 < days then Inl OverflowError
      else let t = now + days * 86400000000
           in if 0 \<le> t \<and> t < datetime_end then Inr t else Inl OverflowError)"

subsection \<open>Issues\<close>

text \<open>
  The first revision reads the first problem's \<open>'id'\<close> (and does nothing with it);
  the second has no such step.
\<close>

definition problems_step :: "revision \<Rightarrow> issue_json \<Rightarrow> exn + unit" where
  "problems_step rv issue_data =
     (case rv of
        Second \<Rightarrow> Inr ()
      | First \<Rightarrow>
          (case ij_problems issue_data of
             None \<Rightarrow> Inr ()
           | Some [] \<Rightarrow> Inr ()
           | Some (None # _) \<Rightarrow> Inl KeyError
           | Some (Some problem_id # _) \<Rightarrow> Inr ()))"

definition issue_of :: "revision \<Rightarrow> string \<Rightarrow> string \<Rightarrow> issue_json \<Rightarrow> exn + SnykIssue" where
  "issue_of rv project_id project_name issue_data =
     (let package_name = ''Unknown''; package_version = ''Unknown''
      in case problems_step rv issue_data of
           Inl e \<Rightarrow> Inl e
         | Inr _ \<Rightarrow>
             (case ij_id issue_data of
                None \<Rightarrow> Inl KeyError
              | Some i \<Rightarrow>
                  Inr \<lparr>si_id = i,
                       si_title = get_or (ij_title issue_data) ''Unknown'',
                       si_severity = get_or (ij_severity issue_data) ''unknown'',
                       si_issue_type = get_or (ij_type issue_data) ''unknown'',
                       si_project_id = project_id,
                       si_project_name = project_name,
                       si_package_name = package_name,
                       si_package_version = package_version,
                       si_introduced_date = get_or (ij_created_at issue_data) ''unknown''\<rparr>))"

fun build_issues :: "revision \<Rightarrow> string \<Rightarrow> string \<Rightarrow> issue_json list \<Rightarrow> exn + SnykIssue list" where
  "build_issues rv project_id project_name [] = Inr []"
| "build_issues rv project_id project_name (issue_data # others) =
     (case issue_of rv project_id project_name issue_data of
        Inl e \<Rightarrow> Inl e
      | Inr issue \<Rightarrow>
          (case build_issues rv project_id project_name others of
             Inl e \<Rightarrow> Inl e
           | Inr issues \<Rightarrow> Inr (issue # issues)))"

text \<open>\<open>get_project_issues\<close>: every exception ends in the empty list.\<close>

definition get_project_issues :: "revision \<Rightarrow> client \<Rightarrow> string \<Rightarrow> world \<Rightarrow> SnykIssue list \<times> world" where
  "get_project_issues rv c project_id s =
     (case make_request (projects_api c)
             (api_request c ''GET'' (''/rest/orgs/'' @ org_id c @ ''/projects/'' @ project_id)) s of
        (Inl e, s1) \<Rightarrow> ([], s1)
      | (Inr project_response, s1) \<Rightarrow>
          (case json project_response of
             None \<Rightarrow> ([], s1)
           | Some project_data \<Rightarrow>
               let project_name = get_or (pd_name project_data) ''Unknown''
               in case make_request (issues_api c)
                         ((api_request c ''GET'' (''/rest/orgs/'' @ org_id c @ ''/issues''))
                            \<lparr>params := [(''project_id'', project_id), (''limit'', ''1000'')]\<rparr>) s1 of
                    (Inl e, s2) \<Rightarrow> ([], s2)
                  | (Inr issues_response, s2) \<Rightarrow>
                      (case json issues_response of
                         None \<Rightarrow> ([], s2)
                       | Some issues_data \<Rightarrow>
                           (case build_issues rv project_id project_name issues_data of
                              Inl e \<Rightarrow> ([], s2)
                            | Inr issues \<Rightarrow> (issues, s2)))))"

text \<open>
  \<open>get_distinct_issues\<close>, over the function that fetches a project's issues
  (\<open>self.get_project_issues\<close>); \<open>fetched_lists\<close> is the list of the lists the loop
  receives.
\<close>

fun distinct_issues_loop ::
  "(string \<Rightarrow> world \<Rightarrow> SnykIssue list \<times> world) \<Rightarrow> string list \<Rightarrow> SnykIssue list \<Rightarrow> world
     \<Rightarrow> SnykIssue list \<times> world" where
  "distinct_issues_loop fetch [] all_issues s = (all_issues, s)"
| "distinct_issues_loop fetch (project_id # others) all_issues s =
     (case fetch project_id s of
        (project_issues, s1) \<Rightarrow>
          distinct_issues_loop fetch others (set_update all_issues project_issues) s1)"

definition get_distinct_issues_via ::
  "(string \<Rightarrow> world \<Rightarrow> SnykIssue list \<times> world) \<Rightarrow> string list \<Rightarrow> world
     \<Rightarrow> SnykIssue list \<times> world" where
  "get_distinct_issues_via fetch project_ids s = distinct_issues_loop fetch project_ids [] s"

definition get_distinct_issues ::
  "revision \<Rightarrow> client \<Rightarrow> string list \<Rightarrow> world \<Rightarrow> SnykIssue list \<times> world" where
  "get_distinct_issues rv c project_ids s =
     get_distinct_issues_via (get_project_issues rv c) project_ids s"

fun fetched_lists ::
  "(string \<Rightarrow> world \<Rightarrow> SnykIssue list \<times> world) \<Rightarrow> string list \<Rightarrow> world \<Rightarrow> SnykIssue list list" where
  "fetched_lists fetch [] s = []"
| "fetched_lists fetch (project_id # others) s =
     (case fetch project_id s of
        (project_issues, s1) \<Rightarrow> project_issues # fetched_lists fetch others s1)"

subsection \<open>Waivers\<close>

text \<open>
  The computation of \<open>is_active\<close> from \<open>expiry_str\<close>, the same in
  \<open>get_existing_waivers_for_issue\<close> and \<open>get_all_waivers\<close>: the clock is read only
  once the expiry has been parsed.
\<close>

definition waiver_is_active :: "client \<Rightarrow> string \<Rightarrow> world \<Rightarrow> bool \<times> world" where
  "waiver_is_active c expiry_str s =
     (if expiry_str = [] then (True, s)
      else case fromisoformat c (replace_Z expiry_str) of
             None \<Rightarrow> (True, s)
           | Some expiry_date \<Rightarrow>
               (case datetime_now c s of (now, s1) \<Rightarrow> (now < expiry_date, s1)))"

text \<open>\<open>add_waiver\<close>: the expiry is computed outside the \<open>try\<close> block.\<close>

definition add_waiver ::
  "client \<Rightarrow> string \<Rightarrow> string \<Rightarrow> string \<Rightarrow> string \<Rightarrow> int \<Rightarrow> world \<Rightarrow> (exn + bool) \<times> world" where
  "add_waiver c issue_id project_id waiver_description waiver_type days s =
     (case datetime_now c s of
        (now, s1) \<Rightarrow>
          (case add_days now days of
             Inl e \<Rightarrow> (Inl e, s1)
           | Inr expiry_date \<Rightarrow>
               let waiver_data =
                     \<lparr>wd_reason = waiver_description, wd_waiver_type = waiver_type,
                      wd_expiry = expiry_date, wd_justification = waiver_description,
                      wd_issue_id = issue_id\<rparr>
               in case make_request (plain_api c)
                         ((api_request c ''POST''
                             (''/rest/orgs/'' @ org_id c @ ''/projects/'' @ project_id
                                @ ''/issues/'' @ issue_id @ ''/waivers''))
                            \<lparr>json_body := Some waiver_data\<rparr>) s1 of
                    (Inl e, s2) \<Rightarrow> (Inr False, s2)
                  | (Inr response, s2) \<Rightarrow> (Inr True, s2)))"

text \<open>
  The loop of \<open>get_existing_waivers_for_issue\<close> over the waiver list: \<open>is_active\<close>
  is computed before \<open>waiver_data['id']\<close> is read.
\<close>

definition existing_waiver_of ::
  "client \<Rightarrow> string \<Rightarrow> string \<Rightarrow> waiver_json \<Rightarrow> world \<Rightarrow> (exn + SnykWaiver) \<times> world" where
  "existing_waiver_of c issue_id project_id waiver_data s =
     (let expiry_str = get_or (wj_expiry waiver_data) []
      in case waiver_is_active c expiry_str s of
           (is_active, s1) \<Rightarrow>
             (case wj_id waiver_data of
                None \<Rightarrow> (Inl KeyError, s1)
              | Some i \<Rightarrow>
                  (Inr \<lparr>sw_id = i,
                        sw_issue_id = issue_id,
                        sw_project_id = project_id,
                        sw_project_name = [],
                        sw_reason = get_or (wj_reason waiver_data) [],
                        sw_waiver_type = get_or (wj_waiver_type waiver_data) [],
                        sw_created_date = get_or (wj_created waiver_data) [],
                        sw_expiry_date = get_or (wj_expiry waiver_data) [],
                        sw_created_by = get_or (wj_created_by waiver_data) [],
                        sw_is_active = is_active,
                        sw_issue_title = [],
                        sw_issue_severity = []\<rparr>, s1)))"

fun existing_waivers_loop ::
  "client \<Rightarrow> string \<Rightarrow> string \<Rightarrow> waiver_json list \<Rightarrow> world \<Rightarrow> (exn + SnykWaiver list) \<times> world" where
  "existing_waivers_loop c issue_id project_id [] s = (Inr [], s)"
| "existing_waivers_loop c issue_id project_id (waiver_data # others) s =
     (case existing_waiver_of c issue_id project_id waiver_data s of
        (Inl e, s1) \<Rightarrow> (Inl e, s1)
      | (Inr waiver, s1) \<Rightarrow>
          (case existing_waivers_loop c issue_id project_id others s1 of
             (Inl e, s2) \<Rightarrow> (Inl e, s2)
           | (Inr waivers, s2) \<Rightarrow> (Inr (waiver # waivers), s2)))"

definition get_existing_waivers_for_issue ::
  "client \<Rightarrow> string \<Rightarrow> string \<Rightarrow> world \<Rightarrow> SnykWaiver list \<times> world" where
  "get_existing_waivers_for_issue c issue_id project_id s =
     (case make_request (waivers_api c)
             (api_request c ''GET''
                (''/rest/orgs/'' @ org_id c @ ''/projects/'' @ project_id
                   @ ''/issues/'' @ issue_id @ ''/waivers'')) s of
        (Inl e, s1) \<Rightarrow> ([], s1)
      | (Inr waivers_response, s1) \<Rightarrow>
          (case json waivers_response of
             None \<Rightarrow> ([], s1)
           | Some waivers_data \<Rightarrow>
               (case existing_waivers_loop c issue_id project_id waivers_data s1 of
                  (Inl e, s2) \<Rightarrow> ([], s2)
                | (Inr waivers, s2) \<Rightarrow> (waivers, s2))))"

text \<open>
  The result dictionary of the waiver operations, by its \<open>'status'\<close> entry (the
  \<open>'reason'\<close> entry is a message for the operator).
\<close>

record result =
  status :: string

text \<open>The tail of \<open>smart_add_waiver\<close>: the waiver is added and the outcome reported.\<close>

definition add_and_report ::
  "client \<Rightarrow> string \<Rightarrow> string \<Rightarrow> string \<Rightarrow> string \<Rightarrow> int \<Rightarrow> world \<Rightarrow> (exn + result) \<times> world" where
  "add_and_report c issue_id project_id waiver_description waiver_type days s =
     (case add_waiver c issue_id project_id waiver_description waiver_type days s of
        (Inl e, s1) \<Rightarrow> (Inl e, s1)
      | (Inr success, s1) \<Rightarrow>
          if success then (Inr \<lparr>status = ''added''\<rparr>, s1)
          else (Inr \<lparr>status = ''failed''\<rparr>, s1))"

definition smart_add_waiver ::
  "client \<Rightarrow> string \<Rightarrow> string \<Rightarrow> string \<Rightarrow> string \<Rightarrow> int \<Rightarrow> bool \<Rightarrow> world
     \<Rightarrow> (exn + result) \<times> world" where
  "smart_add_waiver c issue_id project_id waiver_description waiver_type days skip_if_waived s =
     (case make_request (plain_api c)
             (api_request c ''GET''
                (''/rest/orgs/'' @ org_id c @ ''/projects/'' @ project_id
                   @ ''/issues/'' @ issue_id)) s of
        (Inl e, s1) \<Rightarrow> (Inr \<lparr>status = ''skipped_no_issue''\<rparr>, s1)
      | (Inr issue_response, s1) \<Rightarrow>
          if skip_if_waived then
            (case get_existing_waivers_for_issue c issue_id project_id s1 of
               (existing_waivers, s2) \<Rightarrow>
                 let active_waivers = filter sw_is_active existing_waivers
                 in if active_waivers \<noteq> [] then (Inr \<lparr>status = ''skipped_existing_waiver''\<rparr>, s2)
                    else add_and_report c issue_id project_id waiver_description waiver_type days s2)
          else add_and_report c issue_id project_id waiver_description waiver_type days s1)"

subsection \<open>Waivers for one issue across projects\<close>


text \<open>The issues of a project whose title holds the reference, letter case apart.\<close>

definition matching_issues :: "string \<Rightarrow> SnykIssue list \<Rightarrow> SnykIssue list" where
  "matching_issues issue_reference project_issues =
     filter (\<lambda>issue. contains (lower (si_title issue)) (lower issue_reference)) project_issues"




subsection \<open>All waivers of a list of projects\<close>

text \<open>
  The issue of a waiver in \<open>get_all_waivers\<close>: its id (\<open>None\<close> as in Python), title
  and severity. The issue is fetched when the id is not empty; a failure of that
  request leaves the defaults.
\<close>

definition waiver_issue ::
  "client \<Rightarrow> waiver_json \<Rightarrow> world \<Rightarrow> (string option \<times> string \<times> string) \<times> world" where
  "waiver_issue c waiver_data s =
     (case wj_issue waiver_data of
        None \<Rightarrow> ((None, ''Unknown'', ''unknown''), s)
      | Some None \<Rightarrow> ((None, ''Unknown'', ''unknown''), s)
      | Some (Some issue_id) \<Rightarrow>
          if issue_id = [] then ((Some issue_id, ''Unknown'', ''unknown''), s)
          else
            (case make_request (issue_api c)
                    (api_request c ''GET'' (''/rest/orgs/'' @ org_id c @ ''/issues/'' @ issue_id)) s of
               (Inl e, s1) \<Rightarrow> ((Some issue_id, ''Unknown'', ''unknown''), s1)
             | (Inr issue_response, s1) \<Rightarrow>
                 (case json issue_response of
                    None \<Rightarrow> ((Some issue_id, ''Unknown'', ''unknown''), s1)
                  | Some issue_info \<Rightarrow>
                      ((Some issue_id, get_or (idt_title issue_info) ''Unknown'',
                        get_or (idt_severity issue_info) ''unknown''), s1))))"

text \<open>\<open>issue_id or 'Unknown'\<close>.\<close>

definition or_unknown :: "string option \<Rightarrow> string" where
  "or_unknown issue_id =
     (case issue_id of None \<Rightarrow> ''Unknown'' | Some i \<Rightarrow> if i = [] then ''Unknown'' else i)"

text \<open>
  One turn of the loop over the waivers of a project: the list \<open>all_waivers\<close> after
  it, or the exception that ends the project.
\<close>

definition all_waivers_step ::
  "client \<Rightarrow> string \<Rightarrow> string \<Rightarrow> bool \<Rightarrow> waiver_json \<Rightarrow> SnykWaiver list \<Rightarrow> world
     \<Rightarrow> (exn + SnykWaiver list) \<times> world" where
  "all_waivers_step c project_id project_name active_only waiver_data all_waivers s =
     (case waiver_issue c waiver_data s of
        ((issue_id, issue_title, issue_severity), s1) \<Rightarrow>
          (case waiver_is_active c (get_or (wj_expiry waiver_data) []) s1 of
             (is_active, s2) \<Rightarrow>
               if active_only \<and> \<not> is_active then (Inr all_waivers, s2)
               else
                 (case wj_id waiver_data of
                    None \<Rightarrow> (Inl KeyError, s2)
                  | Some i \<Rightarrow>
                      (Inr (all_waivers @
                         [\<lparr>sw_id = i,
                           sw_issue_id = or_unknown issue_id,
                           sw_project_id = project_id,
                           sw_project_name = project_name,
                           sw_reason = get_or (wj_reason waiver_data) ''No reason provided'',
                           sw_waiver_type = get_or (wj_waiver_type waiver_data) ''unknown'',
                           sw_created_date = get_or (wj_created waiver_data) ''unknown'',
                           sw_expiry_date = get_or (wj_expiry waiver_data) ''unknown'',
                           sw_created_by = get_or (wj_created_by waiver_data) ''unknown'',
                           sw_is_active = is_active,
                           sw_issue_title = issue_title,
                           sw_issue_severity = issue_severity\<rparr>]), s2))))"

fun project_waivers_loop ::
  "client \<Rightarrow> string \<Rightarrow> string \<Rightarrow> bool \<Rightarrow> waiver_json list \<Rightarrow> SnykWaiver list \<Rightarrow> world
     \<Rightarrow> SnykWaiver list \<times> world" where
  "project_waivers_loop c project_id project_name active_only [] all_waivers s = (all_waivers, s)"
| "project_waivers_loop c project_id project_name active_only (waiver_data # others) all_waivers s =
     (case all_waivers_step c project_id project_name active_only waiver_data all_waivers s of
        (Inl e, s1) \<Rightarrow> (all_waivers, s1)
      | (Inr all_waivers', s1) \<Rightarrow>
          project_waivers_loop c project_id project_name active_only others all_waivers' s1)"

text \<open>The body of the loop over the projects; an exception goes on to the next project.\<close>

definition project_waivers ::
  "client \<Rightarrow> bool \<Rightarrow> string \<Rightarrow> SnykWaiver list \<Rightarrow> world \<Rightarrow> SnykWaiver list \<times> world" where
  "project_waivers c active_only project_id all_waivers s =
     (case make_request (projects_api c)
             (api_request c ''GET'' (''/rest/orgs/'' @ org_id c @ ''/projects/'' @ project_id)) s of
        (Inl e, s1) \<Rightarrow> (all_waivers, s1)
      | (Inr project_response, s1) \<Rightarrow>
          (case json project_response of
             None \<Rightarrow> (all_waivers, s1)
           | Some project_data \<Rightarrow>
               let project_name = get_or (pd_name project_data) ''Unknown''
               in case make_request (waivers_api c)
                         ((api_request c ''GET''
                             (''/rest/orgs/'' @ org_id c @ ''/projects/'' @ project_id @ ''/waivers''))
                            \<lparr>params := [(''limit'', ''1000'')]\<rparr>) s1 of
                    (Inl e, s2) \<Rightarrow> (all_waivers, s2)
                  | (Inr waivers_response, s2) \<Rightarrow>
                      (case json waivers_response of
                         None \<Rightarrow> (all_waivers, s2)
                       | Some waivers_data \<Rightarrow>
                           project_waivers_loop c project_id project_name active_only
                             waivers_data all_waivers s2)))"

fun all_waivers_loop ::
  "client \<Rightarrow> bool \<Rightarrow> string list \<Rightarrow> SnykWaiver list \<Rightarrow> world \<Rightarrow> SnykWaiver list \<times> world" where
  "all_waivers_loop c active_only [] all_waivers s = (all_waivers, s)"
| "all_waivers_loop c active_only (project_id # others) all_waivers s =
     (case project_waivers c active_only project_id all_waivers s of
        (all_waivers', s1) \<Rightarrow> all_waivers_loop c active_only others all_waivers' s1)"

definition get_all_waivers ::
  "client \<Rightarrow> string list \<Rightarrow> bool \<Rightarrow> world \<Rightarrow> SnykWaiver list \<times> world" where
  "get_all_waivers c project_ids active_only s = all_waivers_loop c active_only project_ids [] s"

text \<open>
  The waivers \<open>cleanup_expired_waivers\<close> selects for removal (\<open>expired_waivers\<close>),
  from the project ids it has loaded.
\<close>

definition expired_waivers :: "client \<Rightarrow> string list \<Rightarrow> world \<Rightarrow> SnykWaiver list \<times> world" where
  "expired_waivers c project_ids s =
     (if project_ids = [] then ([], s)
      else case get_all_waivers c project_ids False s of
             (all_waivers, s1) \<Rightarrow> (filter (\<lambda>w. \<not> sw_is_active w) all_waivers, s1))"

text \<open>
  An \<open>'expiry'\<close> attribute that is missing, empty, or refused by
  \<open>datetime.fromisoformat\<close> (after \<open>Z\<close> has been replaced).
\<close>

definition expiry_unusable :: "client \<Rightarrow> string option \<Rightarrow> bool" where
  "expiry_unusable c expiry =
     (case expiry of
        None \<Rightarrow> True
      | Some e \<Rightarrow> e = [] \<or> fromisoformat c (replace_Z e) = None)"

text \<open>
  Every record of \<open>get_all_waivers\<close> is active or has an expiry that was parsed.
\<close>

definition settled :: "client \<Rightarrow> SnykWaiver \<Rightarrow> bool" where
  "settled c w = (sw_is_active w \<or> \<not> expiry_unusable c (Some (sw_expiry_date w)))"

section \<open>Example runs\<close>

text \<open>
  A platform that refuses no sleep, the state at the start of a run on it, a request,
  and the endpoint that answers every request with the same status code, no
  \<open>Retry-After\<close> header and no JSON document.
\<close>

definition never :: "nat \<Rightarrow> int \<Rightarrow> bool" where
  "never k n = False"

definition start :: world where
  "start = \<lparr>sent = [], slept = [], ticks = 0, refused = never\<rparr>"

definition ping :: request where
  "ping = \<lparr>http_method = ''GET'', url = ''https://api.snyk.io/rest/orgs/o'', params = [],
            json_body = None\<rparr>"

definition always :: "int \<Rightarrow> 'b endpoint" where
  "always code n rq = Response \<lparr>status_code = code, retry_after = None, json = None\<rparr>"

text \<open>The endpoint that answers the first request with one status and the later ones with another.\<close>

definition first_then :: "int \<Rightarrow> int \<Rightarrow> 'b endpoint" where
  "first_then code later n rq =
     Response \<lparr>status_code = (if n = 0 then code else later), retry_after = None, json = None\<rparr>"

text \<open>
  A catalogue with one custom template, saved at clock reading 0.
\<close>

definition team_template :: WaiverTemplate where
  "team_template =
     \<lparr>wt_name = ''team_exception'', wt_description = ''Team exception'',
      wt_waiver_type = ''temporary'', wt_default_days = 30,
      wt_justification = ''Accepted by the team for one sprint.'', wt_category = ''team''\<rparr>"

definition stocked :: "revision \<Rightarrow> manager" where
  "stocked rv =
     \<lparr>templates = load_default_templates rv @ [team_template],
      templates_file = Some \<lparr>custom_templates = [team_template], last_updated = 0\<rparr>,
      writable = True\<rparr>"



text \<open>
  A remote service: every project is named \<open>shop\<close>; project \<open>p1\<close> has one issue,
  \<open>p2\<close> two (both titles hold \<open>pollution\<close>), the others none; every issue has one
  waiver, which expires on 2026-11-14; the clock stands at 2026-11-04.
\<close>

definition lodash_json :: issue_json where
  "lodash_json =
     \<lparr>ij_id = Some ''SNYK-JS-LODASH-1'', ij_title = Some ''Prototype Pollution'',
      ij_severity = Some ''high'', ij_type = Some ''package_vulnerability'',
      ij_created_at = Some ''2024-01-01'', ij_problems = None\<rparr>"

definition minimist_json :: issue_json where
  "minimist_json =
     \<lparr>ij_id = Some ''SNYK-JS-MINIMIST-2'', ij_title = Some ''Prototype pollution in minimist'',
      ij_severity = Some ''medium'', ij_type = Some ''package_vulnerability'',
      ij_created_at = Some ''2024-02-01'', ij_problems = Some [Some ''CVE-2021-44906'']\<rparr>"

definition project_issues_json :: "string \<Rightarrow> issue_json list" where
  "project_issues_json project =
     (if project = ''p1'' then [lodash_json]
      else if project = ''p2'' then [lodash_json, minimist_json]
      else [])"

definition waiver_json_expiring :: "string option \<Rightarrow> waiver_json" where
  "waiver_json_expiring expiry =
     \<lparr>wj_id = Some ''w-1'', wj_expiry = expiry, wj_reason = Some ''Upgrade planned'',
      wj_waiver_type = Some ''temporary'', wj_created = Some ''2026-08-16T00:00:00Z'',
      wj_created_by = Some ''dev'', wj_issue = Some (Some ''SNYK-JS-LODASH-1'')\<rparr>"

definition parse_example :: "string \<Rightarrow> int option" where
  "parse_example s =
     (if s = ''2026-11-14T00:00:00+00:00'' then Some 63930211200000000
      else if s = ''2020-01-01T00:00:00+00:00'' then Some 63713433600000000
      else None)"

definition ok :: "'b \<Rightarrow> 'b endpoint" where
  "ok doc n rq = Response \<lparr>status_code = 200, retry_after = None, json = Some doc\<rparr>"

definition service :: client where
  "service =
     \<lparr>org_id = ''acme'',
      base_url = ''https://api.snyk.io'',
      projects_api = ok \<lparr>pd_name = Some ''shop''\<rparr>,
      issues_api =
        (\<lambda>n rq. ok (project_issues_json (get_or (map_of (params rq) ''project_id'') [])) n rq),
      issue_api = ok \<lparr>idt_title = Some ''Prototype Pollution'', idt_severity = Some ''high''\<rparr>,
      waivers_api = ok [waiver_json_expiring (Some ''2026-11-14T00:00:00Z'')],
      plain_api = ok (),
      clock = (\<lambda>n. 63929347200000000),
      fromisoformat = parse_example\<rparr>"

text \<open>The issues the client builds from the two documents, for a project.\<close>

definition fetched_lodash :: "string \<Rightarrow> SnykIssue" where
  "fetched_lodash project =
     \<lparr>si_id = ''SNYK-JS-LODASH-1'', si_title = ''Prototype Pollution'', si_severity = ''high'',
      si_issue_type = ''package_vulnerability'', si_project_id = project,
      si_project_name = ''shop'', si_package_name = ''Unknown'', si_package_version = ''Unknown'',
      si_introduced_date = ''2024-01-01''\<rparr>"

definition fetched_minimist :: "string \<Rightarrow> SnykIssue" where
  "fetched_minimist project =
     \<lparr>si_id = ''SNYK-JS-MINIMIST-2'', si_title = ''Prototype pollution in minimist'',
      si_severity = ''medium'',
      si_issue_type = ''package_vulnerability'', si_project_id = project,
      si_project_name = ''shop'', si_package_name = ''Unknown'', si_package_version = ''Unknown'',
      si_introduced_date = ''2024-02-01''\<rparr>"

text \<open>
  The requests of \<open>smart_add_waiver\<close> for the issue of project \<open>p1\<close>: the probe for
  the issue and the listing of its waivers.
\<close>

definition probe :: request where
  "probe = api_request service ''GET'' ''/rest/orgs/acme/projects/p1/issues/SNYK-JS-LODASH-1''"

definition listing :: request where
  "listing =
     api_request service ''GET'' ''/rest/orgs/acme/projects/p1/issues/SNYK-JS-LODASH-1/waivers''"

text \<open>The waiver record built from the waiver of the example service.\<close>

definition existing_waiver :: SnykWaiver where
  "existing_waiver =
     \<lparr>sw_id = ''w-1'', sw_issue_id = ''SNYK-JS-LODASH-1'', sw_project_id = ''p1'',
      sw_project_name = [], sw_reason = ''Upgrade planned'', sw_waiver_type = ''temporary'',
      sw_created_date = ''2026-08-16T00:00:00Z'', sw_expiry_date = ''2026-11-14T00:00:00Z'',
      sw_created_by = ''dev'', sw_is_active = True, sw_issue_title = [],
      sw_issue_severity = []\<rparr>"

text \<open>The example service with another list of waivers.\<close>

definition service_with :: "waiver_json list \<Rightarrow> client" where
  "service_with waivers = service\<lparr>waivers_api := ok waivers\<rparr>"

section \<open>Properties of the request executor\<close>

lemma upt_max_retries: "[0..<max_retries] = [0, 1, 2]"
  by (simp add: max_retries_def upt_rec)

lemma session_request_simp:
  "session_request srv rq s = (srv (length (sent s)) rq, s\<lparr>sent := sent s @ [rq]\<rparr>)"
  by (simp add: session_request_def)

lemma time_sleep_cases:
  "time_sleep n s = (Inr (), s\<lparr>slept := slept s @ [n]\<rparr>) \<or> (\<exists>e. time_sleep n s = (Inl e, s))"
  by (simp add: time_sleep_def)

lemma on_request_exception_cases:
  "(\<exists>n. on_request_exception a e s = (Inr (), s\<lparr>slept := slept s @ [n]\<rparr>))
   \<or> (\<exists>e'. on_request_exception a e s = (Inl e', s))"
  using time_sleep_cases [of "backoff_factor * 2 ^ a" s]
  by (auto simp: on_request_exception_def)

text \<open>One turn of the loop either ends the executor or goes on with the remaining attempts.\<close>

lemma request_attempts_turn:
  "(\<exists>res. request_attempts srv rq (a # rest) s = (res, s\<lparr>sent := sent s @ [rq]\<rparr>))
   \<or> (\<exists>n. request_attempts srv rq (a # rest) s =
          request_attempts srv rq rest (s\<lparr>sent := sent s @ [rq], slept := slept s @ [n]\<rparr>))"
proof -
  let ?s1 = "s\<lparr>sent := sent s @ [rq]\<rparr>"
  note slp = time_sleep_cases [of _ ?s1] and orx = on_request_exception_cases [of a _ ?s1]
  show ?thesis
  proof (cases "srv (length (sent s)) rq")
    case Failure
    then show ?thesis
      using orx [of ConnectionError] by (auto simp: session_request_simp)
  next
    case (Response r)
    show ?thesis
    proof (cases "status_code r = 429")
      case True
      show ?thesis
      proof (cases "retry_after_seconds r")
        case (Inl e)
        then show ?thesis using Response True by (simp add: session_request_simp)
      next
        case (Inr n)
        then show ?thesis
          using Response True slp [of n] by (auto simp: session_request_simp)
      qed
    next
      case False
      show ?thesis
      proof (cases "raise_for_status r")
        case (Inr u)
        then show ?thesis using Response False by (simp add: session_request_simp)
      next
        case (Inl e)
        then show ?thesis
          using Response False orx [of e] by (auto simp: session_request_simp)
      qed
    qed
  qed
qed

lemma request_attempts_sent:
  "\<exists>k\<le>length as. sent (snd (request_attempts srv rq as s)) = sent s @ replicate k rq"
proof (induction as arbitrary: s)
  case Nil
  show ?case by simp
next
  case (Cons a as)
  from request_attempts_turn [of srv rq a as s] show ?case
  proof (elim disjE exE)
    fix res
    assume "request_attempts srv rq (a # as) s = (res, s\<lparr>sent := sent s @ [rq]\<rparr>)"
    then have "sent (snd (request_attempts srv rq (a # as) s)) = sent s @ replicate 1 rq"
      by simp
    then show ?thesis by (intro exI [of _ 1]) simp
  next
    fix n
    let ?s2 = "s\<lparr>sent := sent s @ [rq], slept := slept s @ [n]\<rparr>"
    assume eq: "request_attempts srv rq (a # as) s = request_attempts srv rq as ?s2"
    from Cons.IH [of ?s2] obtain k where k: "k \<le> length as"
      "sent (snd (request_attempts srv rq as ?s2)) = sent ?s2 @ replicate k rq" by blast
    then have "sent (snd (request_attempts srv rq (a # as) s)) = sent s @ replicate (Suc k) rq"
      using eq by (simp add: replicate_app_Cons_same)
    then show ?thesis using k(1) by (intro exI [of _ "Suc k"]) simp
  qed
qed

lemma request_attempts_ticks:
  "ticks (snd (request_attempts srv rq as s)) = ticks s"
proof (induction as arbitrary: s)
  case Nil
  show ?case by simp
next
  case (Cons a as)
  from request_attempts_turn [of srv rq a as s] show ?case
  proof (elim disjE exE)
    fix res
    assume "request_attempts srv rq (a # as) s = (res, s\<lparr>sent := sent s @ [rq]\<rparr>)"
    then show ?thesis by simp
  next
    fix n
    let ?s2 = "s\<lparr>sent := sent s @ [rq], slept := slept s @ [n]\<rparr>"
    assume eq: "request_attempts srv rq (a # as) s = request_attempts srv rq as ?s2"
    show ?thesis using Cons.IH [of ?s2] eq by simp
  qed
qed

lemma make_request_sent:
  "\<exists>k\<le>3. sent (snd (make_request srv rq s)) = sent s @ replicate k rq"
proof -
  obtain k where "k \<le> length [0::nat, 1, 2]"
    and k: "sent (snd (request_attempts srv rq [0, 1, 2] s)) = sent s @ replicate k rq"
    using request_attempts_sent [of "[0, 1, 2]" srv rq s] by blast
  then have "k \<le> 3" by simp
  then show ?thesis using k unfolding make_request_def upt_max_retries by blast
qed

lemma make_request_ticks: "ticks (snd (make_request srv rq s)) = ticks s"
  by (simp add: make_request_def request_attempts_ticks)


lemma time_sleep_sure:
  "0 \<le> n \<Longrightarrow> n \<le> sleep_sure \<Longrightarrow> time_sleep n s = (Inr (), s\<lparr>slept := slept s @ [n]\<rparr>)"
  by (simp add: time_sleep_def sleep_sure_def sleep_max_def)

lemma time_sleep_result:
  "time_sleep n s = (Inr u, s') \<Longrightarrow> s' = s\<lparr>slept := slept s @ [n]\<rparr>"
  "time_sleep n s = (Inl e, s') \<Longrightarrow> s' = s \<and> e \<in> {OverflowError, ValueError, OSError}"
  by (auto simp: time_sleep_def split: if_splits)

text \<open>A 429 on any attempt: the loop goes on as the sleep decides.\<close>

lemma step_429:
  assumes "srv (length (sent s)) rq = Response r" "status_code r = 429"
    "retry_after_seconds r = Inr n"
  shows "request_attempts srv rq (a # rest) s =
     (case time_sleep n (s\<lparr>sent := sent s @ [rq]\<rparr>) of
        (Inl e, s2) \<Rightarrow> (Inl e, s2)
      | (Inr _, s2) \<Rightarrow> request_attempts srv rq rest s2)"
  using assms
  by (simp add: session_request_def)

lemma step_429_sure:
  assumes "srv (length (sent s)) rq = Response r" "status_code r = 429"
    "retry_after_seconds r = Inr n" "0 \<le> n" "n \<le> sleep_sure"
  shows "request_attempts srv rq (a # rest) s =
     request_attempts srv rq rest (s\<lparr>sent := sent s @ [rq], slept := slept s @ [n]\<rparr>)"
  using step_429 [where srv=srv and s=s and rq=rq, OF assms(1,2,3)] time_sleep_sure [OF assms(4,5)]
  by simp

text \<open>
  Claim C1, as amended. A 429 response is not handled as a failure (there is no backoff
  sleep), but it takes one of the three attempts. The executor never sends more than
  three requests for a call, and a call is the loop over the attempts 0, 1 and 2. A
  response without \<open>Retry-After\<close> header waits 60 seconds, and a wait from 0 to
  \<open>sleep_sure\<close> seconds is always accepted by \<open>time.sleep\<close>. For a 429 on any
  attempt, in any state of the run: when \<open>int\<close> reads the header (or it is absent)
  and \<open>time.sleep\<close> accepts the wait, the executor sleeps for the wait and goes on
  with the attempts that are left, and raises \<open>Max retries exceeded\<close> when none is
  left; when \<open>int\<close> rejects the header, or \<open>time.sleep\<close> the wait, that exception
  leaves the executor at once, with no sleep and no further request. When all three
  answers are 429 with waits from 0 to \<open>sleep_sure\<close> seconds, the call fails with
  \<open>Max retries exceeded\<close> after three requests and three waits.
\<close>

theorem make_request_rate_limited:
  fixes srv :: "'b endpoint"
  shows "length (sent (snd (make_request srv rq s))) \<le> length (sent s) + 3
   \<and> make_request srv rq s = request_attempts srv rq [0, 1, 2] s
   \<and> (\<forall>r :: 'b response. retry_after r = None \<longrightarrow> retry_after_seconds r = Inr 60)
   \<and> (\<forall>n. 0 \<le> n \<and> n \<le> sleep_sure \<longrightarrow>
         time_sleep n s = (Inr (), s\<lparr>slept := slept s @ [n]\<rparr>))
   \<and> (\<forall>a rest r n u s2.
         srv (length (sent s)) rq = Response r \<and> status_code r = 429
         \<and> retry_after_seconds r = Inr n
         \<and> time_sleep n (s\<lparr>sent := sent s @ [rq]\<rparr>) = (Inr u, s2)
        \<longrightarrow> s2 = s\<lparr>sent := sent s @ [rq], slept := slept s @ [n]\<rparr>
            \<and> request_attempts srv rq (a # rest) s = request_attempts srv rq rest s2
            \<and> request_attempts srv rq [a] s = (Inl MaxRetriesExceeded, s2))
   \<and> (\<forall>a rest r n e s2.
         srv (length (sent s)) rq = Response r \<and> status_code r = 429
         \<and> retry_after_seconds r = Inr n
         \<and> time_sleep n (s\<lparr>sent := sent s @ [rq]\<rparr>) = (Inl e, s2)
        \<longrightarrow> request_attempts srv rq (a # rest) s = (Inl e, s\<lparr>sent := sent s @ [rq]\<rparr>))
   \<and> (\<forall>a rest r e.
         srv (length (sent s)) rq = Response r \<and> status_code r = 429
         \<and> retry_after_seconds r = Inl e
        \<longrightarrow> e = ValueError
            \<and> request_attempts srv rq (a # rest) s = (Inl e, s\<lparr>sent := sent s @ [rq]\<rparr>))
   \<and> ((\<forall>k<3. \<exists>r. srv (length (sent s) + k) rq = Response r \<and> status_code r = 429
          \<and> retry_after_seconds r = Inr (n k) \<and> 0 \<le> n k \<and> n k \<le> sleep_sure)
        \<longrightarrow> make_request srv rq s =
            (Inl MaxRetriesExceeded,
             s\<lparr>sent := sent s @ [rq, rq, rq], slept := slept s @ [n 0, n 1, n 2]\<rparr>))"
proof -
  have c1: "length (sent (snd (make_request srv rq s))) \<le> length (sent s) + 3"
    using make_request_sent [of srv rq s] by auto
  have c2: "make_request srv rq s = request_attempts srv rq [0, 1, 2] s"
    by (simp only: make_request_def upt_max_retries)
  have c3: "retry_after_seconds r = Inr 60" if "retry_after r = None" for r :: "'b response"
    using that by (simp add: retry_after_seconds_def)
  have c4: "time_sleep n s = (Inr (), s\<lparr>slept := slept s @ [n]\<rparr>)"
    if "0 \<le> n \<and> n \<le> sleep_sure" for n
    using that by (simp add: time_sleep_sure)
  have c5: "s2 = s\<lparr>sent := sent s @ [rq], slept := slept s @ [n]\<rparr>
      \<and> request_attempts srv rq (a # rest) s = request_attempts srv rq rest s2
      \<and> request_attempts srv rq [a] s = (Inl MaxRetriesExceeded, s2)"
    if h: "srv (length (sent s)) rq = Response r \<and> status_code r = 429
         \<and> retry_after_seconds r = Inr n
         \<and> time_sleep n (s\<lparr>sent := sent s @ [rq]\<rparr>) = (Inr u, s2)"
    for a rest r n u s2
  proof -
    from h have r: "srv (length (sent s)) rq = Response r" "status_code r = 429"
      "retry_after_seconds r = Inr n" by simp_all
    from h have sl: "time_sleep n (s\<lparr>sent := sent s @ [rq]\<rparr>) = (Inr u, s2)" by simp
    from time_sleep_result(1) [OF sl]
    have s2: "s2 = s\<lparr>sent := sent s @ [rq], slept := slept s @ [n]\<rparr>" by simp
    have "request_attempts srv rq (a # rest) s = request_attempts srv rq rest s2" for rest
      using step_429 [where srv=srv and s=s and rq=rq, OF r] sl by simp
    from this [of rest] this [of "[]"] s2 show ?thesis by simp
  qed
  have c6: "request_attempts srv rq (a # rest) s = (Inl e, s\<lparr>sent := sent s @ [rq]\<rparr>)"
    if h: "srv (length (sent s)) rq = Response r \<and> status_code r = 429
         \<and> retry_after_seconds r = Inr n
         \<and> time_sleep n (s\<lparr>sent := sent s @ [rq]\<rparr>) = (Inl e, s2)"
    for a rest r n e s2
  proof -
    from h have r: "srv (length (sent s)) rq = Response r" "status_code r = 429"
      "retry_after_seconds r = Inr n" by simp_all
    from h have sl: "time_sleep n (s\<lparr>sent := sent s @ [rq]\<rparr>) = (Inl e, s2)" by simp
    from time_sleep_result(2) [OF sl] have "s2 = s\<lparr>sent := sent s @ [rq]\<rparr>" by simp
    with step_429 [where srv=srv and s=s and rq=rq, OF r] sl show ?thesis by simp
  qed
  have c7: "e = ValueError
      \<and> request_attempts srv rq (a # rest) s = (Inl e, s\<lparr>sent := sent s @ [rq]\<rparr>)"
    if h: "srv (length (sent s)) rq = Response r \<and> status_code r = 429
         \<and> retry_after_seconds r = Inl e"
    for a rest r e
  proof -
    from h have "e = ValueError"
      by (auto simp: retry_after_seconds_def split: option.splits)
    with h show ?thesis by (simp add: session_request_def)
  qed
  have c8: "make_request srv rq s =
      (Inl MaxRetriesExceeded,
       s\<lparr>sent := sent s @ [rq, rq, rq], slept := slept s @ [n 0, n 1, n 2]\<rparr>)"
    if all: "\<forall>k<3. \<exists>r. srv (length (sent s) + k) rq = Response r \<and> status_code r = 429
          \<and> retry_after_seconds r = Inr (n k) \<and> 0 \<le> n k \<and> n k \<le> sleep_sure"
  proof -
    let ?s1 = "s\<lparr>sent := sent s @ [rq], slept := slept s @ [n 0]\<rparr>"
    let ?s2 = "s\<lparr>sent := sent s @ [rq, rq], slept := slept s @ [n 0, n 1]\<rparr>"
    let ?s3 = "s\<lparr>sent := sent s @ [rq, rq, rq], slept := slept s @ [n 0, n 1, n 2]\<rparr>"
    from all [rule_format, of 0] obtain r0 where r0: "srv (length (sent s)) rq = Response r0"
      "status_code r0 = 429" "retry_after_seconds r0 = Inr (n 0)" "0 \<le> n 0" "n 0 \<le> sleep_sure"
      by auto
    from all [rule_format, of 1] obtain r1 where r1: "srv (length (sent ?s1)) rq = Response r1"
      "status_code r1 = 429" "retry_after_seconds r1 = Inr (n 1)" "0 \<le> n 1" "n 1 \<le> sleep_sure"
      by auto
    from all [rule_format, of 2] obtain r2 where r2: "srv (length (sent ?s2)) rq = Response r2"
      "status_code r2 = 429" "retry_after_seconds r2 = Inr (n 2)" "0 \<le> n 2" "n 2 \<le> sleep_sure"
      by auto
    have "make_request srv rq s = request_attempts srv rq [0, 1, 2] s"
      by (rule c2)
    also have "\<dots> = request_attempts srv rq [1, 2] ?s1"
      using step_429_sure [where srv=srv and s=s and rq=rq, OF r0] by simp
    also have "\<dots> = request_attempts srv rq [2] ?s2"
      using step_429_sure [where srv=srv and s="?s1" and rq=rq, OF r1] by simp
    also have "\<dots> = request_attempts srv rq [] ?s3"
      using step_429_sure [where srv=srv and s="?s2" and rq=rq, OF r2] by simp
    finally show ?thesis by simp
  qed
  from c1 c2 c3 c4 c5 c6 c7 c8 show ?thesis by blast
qed

text \<open>
  The theorem at the endpoint that always answers 429 (three requests, three waits of 60
  seconds, then \<open>Max retries exceeded\<close>), at a 429 whose header is not a number, and
  at a 429 whose header is a negative number.
\<close>

theorem make_request_rate_limited_witness:
  "length (sent (snd (make_request (always 429 :: unit endpoint) ping start))) \<le> 3
   \<and> time_sleep 60 (start\<lparr>sent := [ping]\<rparr>) = (Inr (), start\<lparr>sent := [ping], slept := [60]\<rparr>)
   \<and> request_attempts (always 429 :: unit endpoint) ping [0, 1, 2] start =
       request_attempts (always 429) ping [1, 2] (start\<lparr>sent := [ping], slept := [60]\<rparr>)
   \<and> request_attempts (always 429 :: unit endpoint) ping [2] start =
       (Inl MaxRetriesExceeded, start\<lparr>sent := [ping], slept := [60]\<rparr>)
   \<and> make_request (always 429 :: unit endpoint) ping start =
       (Inl MaxRetriesExceeded, start\<lparr>sent := [ping, ping, ping], slept := [60, 60, 60]\<rparr>)
   \<and> request_attempts
        (\<lambda>k rq. Response \<lparr>status_code = 429, retry_after = Some ''soon'',
                            json = (None :: unit option)\<rparr>) ping [0, 1, 2] start =
       (Inl ValueError, start\<lparr>sent := [ping]\<rparr>)
   \<and> request_attempts
        (\<lambda>k rq. Response \<lparr>status_code = 429, retry_after = Some ''-5'',
                            json = (None :: unit option)\<rparr>) ping [0, 1, 2] start =
       (Inl ValueError, start\<lparr>sent := [ping]\<rparr>)"
proof -
  let ?r = "\<lparr>status_code = 429, retry_after = None, json = (None :: unit option)\<rparr>"
  let ?soon = "\<lparr>status_code = 429, retry_after = Some ''soon'', json = (None :: unit option)\<rparr>"
  let ?neg = "\<lparr>status_code = 429, retry_after = Some ''-5'', json = (None :: unit option)\<rparr>"
  let ?s1 = "start\<lparr>sent := sent start @ [ping]\<rparr>"
  let ?s2 = "start\<lparr>sent := sent start @ [ping], slept := slept start @ [60]\<rparr>"
  note th = make_request_rate_limited [where srv="always 429 :: unit endpoint" and rq=ping
      and s=start and n="\<lambda>k. 60"]
  note th1 = make_request_rate_limited [where srv="always 429 :: unit endpoint" and rq=ping
      and s="?s1" and n="\<lambda>k. 60"]
  note th_soon = make_request_rate_limited [where srv="\<lambda>k rq. Response ?soon" and rq=ping
      and s=start and n="\<lambda>k. 60"]
  note th_neg = make_request_rate_limited [where srv="\<lambda>k rq. Response ?neg" and rq=ping
      and s=start and n="\<lambda>k. 60"]
  have emp: "sent start = []" "slept start = []"
    by (simp_all add: start_def)
  have a: "length (sent (snd (make_request (always 429 :: unit endpoint) ping start))) \<le> 3"
    using th [THEN conjunct1] emp by simp
  have r: "retry_after_seconds ?r = Inr 60"
    using th [THEN conjunct2, THEN conjunct2, THEN conjunct1, rule_format, of ?r] by simp
  have b: "(0::int) \<le> 60 \<and> 60 \<le> sleep_sure"
    by (simp add: sleep_sure_def)
  have sl: "time_sleep 60 ?s1 = (Inr (), ?s1\<lparr>slept := slept ?s1 @ [60]\<rparr>)"
    using th1 [THEN conjunct2, THEN conjunct2, THEN conjunct2, THEN conjunct1, rule_format,
        of 60, OF b] .
  have one: "(always 429 :: unit endpoint) (length (sent start)) ping = Response ?r
      \<and> status_code ?r = 429 \<and> retry_after_seconds ?r = Inr 60
      \<and> time_sleep 60 ?s1 = (Inr (), ?s1\<lparr>slept := slept ?s1 @ [60]\<rparr>)"
    using r sl by (simp add: always_def)
  note step = th [THEN conjunct2, THEN conjunct2, THEN conjunct2, THEN conjunct2, THEN conjunct1,
      rule_format, OF one]
  have st1: "request_attempts (always 429 :: unit endpoint) ping [0, 1, 2] start =
      request_attempts (always 429) ping [1, 2] (?s1\<lparr>slept := slept ?s1 @ [60]\<rparr>)"
    using step [of 0 "[1, 2]"] by blast
  have st2: "request_attempts (always 429 :: unit endpoint) ping [2] start =
      (Inl MaxRetriesExceeded, ?s1\<lparr>slept := slept ?s1 @ [60]\<rparr>)"
    using step [of 2 "[]"] by blast
  have all: "\<forall>k<3. \<exists>r. (always 429 :: unit endpoint) (length (sent start) + k) ping = Response r
      \<and> status_code r = 429 \<and> retry_after_seconds r = Inr 60 \<and> (0::int) \<le> 60
      \<and> 60 \<le> sleep_sure"
    using r b by (simp add: always_def)
  have c: "make_request (always 429 :: unit endpoint) ping start =
       (Inl MaxRetriesExceeded,
        start\<lparr>sent := sent start @ [ping, ping, ping], slept := slept start @ [60, 60, 60]\<rparr>)"
    using th [THEN conjunct2, THEN conjunct2, THEN conjunct2, THEN conjunct2, THEN conjunct2,
        THEN conjunct2, THEN conjunct2, THEN mp, OF all] .
  have "retry_after_seconds ?soon = Inl ValueError"
    by (simp add: retry_after_seconds_def py_int_def int_max_str_digits_def py_strip_def is_space_def parse_digits_def
        is_digit_def digit_val_def)
  then have hs: "(\<lambda>k rq. Response ?soon) (length (sent start)) ping = Response ?soon
      \<and> status_code ?soon = 429 \<and> retry_after_seconds ?soon = Inl ValueError"
    by simp
  have soon: "request_attempts (\<lambda>k rq. Response ?soon) ping [0, 1, 2] start =
      (Inl ValueError, ?s1)"
    using th_soon [THEN conjunct2, THEN conjunct2, THEN conjunct2, THEN conjunct2,
        THEN conjunct2, THEN conjunct2, THEN conjunct1, rule_format, OF hs, of 0 "[1, 2]"]
    by blast
  have n5: "retry_after_seconds ?neg = Inr (- 5)"
    by (simp add: retry_after_seconds_def py_int_def int_max_str_digits_def py_strip_def is_space_def parse_digits_def
        is_digit_def digit_val_def)
  have "time_sleep (- 5) ?s1 = (Inl ValueError, ?s1)"
    by (simp add: time_sleep_def sleep_max_def)
  with n5 have hn: "(\<lambda>k rq. Response ?neg) (length (sent start)) ping = Response ?neg
      \<and> status_code ?neg = 429 \<and> retry_after_seconds ?neg = Inr (- 5)
      \<and> time_sleep (- 5) ?s1 = (Inl ValueError, ?s1)"
    by simp
  have neg: "request_attempts (\<lambda>k rq. Response ?neg) ping [0, 1, 2] start =
      (Inl ValueError, ?s1)"
    using th_neg [THEN conjunct2, THEN conjunct2, THEN conjunct2, THEN conjunct2,
        THEN conjunct2, THEN conjunct1, rule_format, OF hn, of 0 "[1, 2]"] .
  from a sl st1 st2 c soon neg
  show ?thesis by (simp add: emp del: request_attempts.simps)
qed

text \<open>
  Claim C1 as stated fails: the 429 responses use up the attempts. With 429 on every
  request the executor stops after three requests; with one 429 followed by 500s the
  plain 500 gets two attempts, not three.
\<close>

theorem rate_limit_uses_attempts:
  "make_request (always 429 :: unit endpoint) ping start =
     (Inl MaxRetriesExceeded, \<lparr>sent = [ping, ping, ping], slept = [60, 60, 60], ticks = 0, refused = never\<rparr>)
   \<and> make_request (first_then 429 500 :: unit endpoint) ping start =
     (Inl (HTTPError 500), \<lparr>sent = [ping, ping, ping], slept = [60, 2], ticks = 0, refused = never\<rparr>)"
  unfolding make_request_def upt_max_retries
  by (simp add: always_def first_then_def start_def session_request_def retry_after_seconds_def
      time_sleep_def sleep_max_def sleep_sure_def raise_for_status_def on_request_exception_def
      max_retries_def backoff_factor_def)

text \<open>
  The \<open>Retry-After\<close> header is read with \<open>int\<close>: a number of seconds is the wait,
  anything else (an HTTP date) is a \<open>ValueError\<close> that leaves the executor at once.
\<close>

lemma retry_after_header_examples:
  "retry_after_seconds \<lparr>status_code = 429, retry_after = Some ''30'', json = (None :: unit option)\<rparr>
     = Inr 30"
  "retry_after_seconds \<lparr>status_code = 429, retry_after = Some '' 1_0 '', json = (None :: unit option)\<rparr>
     = Inr 10"
  "retry_after_seconds
     \<lparr>status_code = 429, retry_after = Some ''Wed, 21 Oct 2026 07:28:00 GMT'',
      json = (None :: unit option)\<rparr> = Inl ValueError"
  by (simp_all add: retry_after_seconds_def py_int_def int_max_str_digits_def py_strip_def is_space_def parse_digits_def
      is_digit_def digit_val_def)

lemma rate_limit_header_run:
  "make_request
     (\<lambda>n rq. if n = 0
        then Response \<lparr>status_code = 429, retry_after = Some ''30'', json = None\<rparr>
        else Response \<lparr>status_code = 200, retry_after = None, json = Some ()\<rparr>) ping start
   = (Inr \<lparr>status_code = 200, retry_after = None, json = Some ()\<rparr>,
      \<lparr>sent = [ping, ping], slept = [30], ticks = 0, refused = never\<rparr>)"
  unfolding make_request_def upt_max_retries
  by (simp add: start_def session_request_def retry_after_seconds_def py_int_def int_max_str_digits_def py_strip_def
      is_space_def parse_digits_def is_digit_def digit_val_def time_sleep_def sleep_max_def sleep_sure_def
      raise_for_status_def)

lemma bad_header_run:
  "make_request
     (\<lambda>n rq. Response \<lparr>status_code = 429, retry_after = Some ''soon'', json = (None :: unit option)\<rparr>)
     ping start
   = (Inl ValueError, \<lparr>sent = [ping], slept = [], ticks = 0, refused = never\<rparr>)"
  unfolding make_request_def upt_max_retries
  by (simp add: start_def session_request_def retry_after_seconds_def py_int_def int_max_str_digits_def py_strip_def
      is_space_def parse_digits_def is_digit_def digit_val_def)

text \<open>
  Claim C2 at the endpoint that always answers 401: the executor of \<open>snyk_utility.py\<close>
  sends three requests and sleeps 1 and 2 seconds in between before it raises the
  \<open>HTTPError\<close>; the 401 is retried like any other error status.
\<close>

theorem unauthorized_is_retried:
  "make_request (always 401 :: unit endpoint) ping start =
     (Inl (HTTPError 401), \<lparr>sent = [ping, ping, ping], slept = [1, 2], ticks = 0, refused = never\<rparr>)"
  unfolding make_request_def upt_max_retries
  by (simp add: always_def start_def session_request_def
      time_sleep_def sleep_max_def sleep_sure_def raise_for_status_def on_request_exception_def
      max_retries_def backoff_factor_def)

lemma debug_unauthorized_example:
  "make_request_debug (always 401 :: unit endpoint) ping start =
     (Inl (HTTPError 401), \<lparr>sent = [ping], slept = [], ticks = 0, refused = never\<rparr>)"
  unfolding make_request_debug_def upt_max_retries
  by (simp add: always_def start_def session_request_def on_http_error_debug_def)

text \<open>
  The executor of \<open>snyk_auth_debug.py\<close> raises a 401 at once, whichever attempt it answers.
\<close>

lemma debug_unauthorized_not_retried:
  assumes "srv (length (sent s)) rq = Response r" "status_code r = 401"
  shows "request_attempts_debug srv rq (a # rest) s =
     (Inl (HTTPError 401), s\<lparr>sent := sent s @ [rq]\<rparr>)"
  using assms by (simp add: session_request_def on_http_error_debug_def)

lemma debug_unauthorized_first:
  assumes "srv (length (sent s)) rq = Response r" "status_code r = 401"
  shows "make_request_debug srv rq s = (Inl (HTTPError 401), s\<lparr>sent := sent s @ [rq]\<rparr>)"
  unfolding make_request_debug_def upt_max_retries
  using debug_unauthorized_not_retried [where srv=srv and s=s and rq=rq, OF assms] by simp




section \<open>Properties of the template manager\<close>

lemma delete_first_Some:
  "delete_first name ts = Some ts' \<Longrightarrow> \<exists>t\<in>set ts. wt_name t = name"
  by (induction ts arbitrary: ts') (auto split: if_splits)

lemma delete_first_present:
  "\<exists>t\<in>set ts. wt_name t = name \<Longrightarrow> \<exists>ts'. delete_first name ts = Some ts'"
  by (induction ts) auto

text \<open>
  Claim C8. For every state of the template manager and every name of the built-in set
  (of either revision), \<open>remove_template\<close> returns \<open>False\<close> and leaves the manager
  as it was: the template list, the file and all. It returns \<open>True\<close> only for a name
  that is not built-in and that a template of the list carries; and for such a name it
  does return \<open>True\<close> when the file can be written.
\<close>

theorem remove_template_builtin:
  "(name \<in> default_names rv \<longrightarrow> remove_template rv name now m = (Inr False, m))
   \<and> (\<forall>m'. remove_template rv name now m = (Inr True, m')
         \<longrightarrow> name \<notin> default_names rv \<and> (\<exists>t\<in>set (templates m). wt_name t = name))
   \<and> (name \<notin> default_names rv \<and> (\<exists>t\<in>set (templates m). wt_name t = name) \<and> writable m
         \<longrightarrow> (\<exists>m'. remove_template rv name now m = (Inr True, m')))"
proof -
  have builtin: "remove_template rv name now m = (Inr False, m)" if "name \<in> default_names rv"
    using that by (simp add: remove_template_def)
  have only: "name \<notin> default_names rv \<and> (\<exists>t\<in>set (templates m). wt_name t = name)"
    if ok: "remove_template rv name now m = (Inr True, m')" for m'
  proof -
    from ok have custom: "name \<notin> default_names rv"
      by (auto simp: remove_template_def)
    with ok obtain ts where "delete_first name (templates m) = Some ts"
      by (auto simp: remove_template_def split: option.splits)
    then have "\<exists>t\<in>set (templates m). wt_name t = name"
      by (rule delete_first_Some)
    with custom show ?thesis by simp
  qed
  have custom: "\<exists>m'. remove_template rv name now m = (Inr True, m')"
    if h: "name \<notin> default_names rv \<and> (\<exists>t\<in>set (templates m). wt_name t = name) \<and> writable m"
  proof -
    from h obtain ts where "delete_first name (templates m) = Some ts"
      using delete_first_present [of "templates m" name] by blast
    with h show ?thesis
      by (simp add: remove_template_def save_custom_templates_def)
  qed
  from builtin only custom show ?thesis by blast
qed

lemma default_names_First:
  "default_names First =
     {''false_positive'', ''dev_dependency'', ''upgrade_planned'', ''no_exploit_path'',
      ''low_risk_accepted'', ''legacy_system'', ''vendor_patch_pending'', ''test_environment'',
      ''internal_tool''}"
  by (simp add: default_names_def load_default_templates_def)

lemma default_names_Second:
  "default_names Second = insert ''compensating_controls'' (default_names First)"
  by (auto simp: default_names_def load_default_templates_def)

text \<open>
  The theorem at the catalogue with one custom template: the built-in
  \<open>upgrade_planned\<close> stays, the custom \<open>team_exception\<close> is removed and the file
  rewritten.
\<close>

theorem remove_template_builtin_witness:
  "''upgrade_planned'' \<in> default_names First
   \<and> remove_template First ''upgrade_planned'' 7 (stocked First) = (Inr False, stocked First)
   \<and> remove_template First ''team_exception'' 7 (stocked First) =
       (Inr True, \<lparr>templates = load_default_templates First,
                   templates_file = Some \<lparr>custom_templates = [], last_updated = 7\<rparr>,
                   writable = True\<rparr>)
   \<and> ''team_exception'' \<notin> default_names First
   \<and> team_template \<in> set (templates (stocked First))"
proof -
  have d: "''upgrade_planned'' \<in> default_names First"
    by (simp add: default_names_First)
  have a: "remove_template First ''upgrade_planned'' 7 (stocked First) = (Inr False, stocked First)"
    using remove_template_builtin [of "''upgrade_planned''" First 7 "stocked First"] d by blast
  have n: "''team_exception'' \<notin> default_names First"
    by (simp add: default_names_First)
  have t: "team_template \<in> set (templates (stocked First))"
    by (simp add: stocked_def)
  have "wt_name team_template = ''team_exception''"
    by (simp add: team_template_def)
  with t have p: "\<exists>t\<in>set (templates (stocked First)). wt_name t = ''team_exception''"
    by blast
  have w: "writable (stocked First)"
    by (simp add: stocked_def)
  obtain m' where m': "remove_template First ''team_exception'' 7 (stocked First) = (Inr True, m')"
    using remove_template_builtin [of "''team_exception''" First 7 "stocked First"] n p w by blast
  have "delete_first ''team_exception'' (templates (stocked First)) = Some (load_default_templates First)"
    by (simp add: stocked_def load_default_templates_def team_template_def)
  then have "remove_template First ''team_exception'' 7 (stocked First) =
       (Inr True, \<lparr>templates = load_default_templates First,
                   templates_file = Some \<lparr>custom_templates = [], last_updated = 7\<rparr>,
                   writable = True\<rparr>)"
    using n
    by (simp add: remove_template_def save_custom_templates_def stocked_def default_names_First
        load_default_templates_def)
  with d a n t show ?thesis by blast
qed

section \<open>Properties of issue identity and of the distinct issues\<close>

lemma issue_eq_key: "issue_eq a b \<longleftrightarrow> issue_key a = issue_key b"
  by (auto simp: issue_eq_def issue_key_def)

lemma list_ex_issue_eq:
  "list_ex (issue_eq a) members \<longleftrightarrow> issue_key a \<in> set (map issue_key members)"
  by (auto simp: list_ex_iff issue_eq_key)


lemma set_add_distinct:
  "distinct (map issue_key members) \<Longrightarrow> distinct (map issue_key (set_add members a))"
  by (auto simp: set_add_def list_ex_issue_eq)

lemma set_add_subset: "set (set_add members a) \<subseteq> insert a (set members)"
  by (auto simp: set_add_def)


lemma set_update_distinct:
  "distinct (map issue_key members) \<Longrightarrow> distinct (map issue_key (set_update members new))"
  unfolding set_update_def
  by (induction new arbitrary: members) (simp_all add: set_add_distinct)

lemma set_update_subset: "set (set_update members new) \<subseteq> set members \<union> set new"
  unfolding set_update_def
proof (induction new arbitrary: members)
  case Nil
  show ?case by simp
next
  case (Cons a new)
  show ?case
    using Cons.IH [of "set_add members a"] set_add_subset [of members a] by auto
qed


lemma distinct_issues_loop_distinct:
  "distinct (map issue_key acc) \<Longrightarrow>
     distinct (map issue_key (fst (distinct_issues_loop fetch ps acc s)))"
proof (induction ps arbitrary: acc s)
  case Nil
  then show ?case by simp
next
  case (Cons p ps)
  obtain l s1 where f: "fetch p s = (l, s1)" by (cases "fetch p s")
  show ?case
    using Cons.IH [of "set_update acc l" s1] set_update_distinct [OF Cons.prems, of l] f
    by simp
qed

lemma distinct_issues_loop_subset:
  "set (fst (distinct_issues_loop fetch ps acc s)) \<subseteq>
     set acc \<union> set (concat (fetched_lists fetch ps s))"
proof (induction ps arbitrary: acc s)
  case Nil
  show ?case by simp
next
  case (Cons p ps)
  obtain l s1 where f: "fetch p s = (l, s1)" by (cases "fetch p s")
  show ?case
    using Cons.IH [of "set_update acc l" s1] set_update_subset [of acc l] f
    by auto
qed


subsection \<open>Issues as the fetch path builds them\<close>

lemma issue_of_unknown:
  "issue_of rv project_id project_name issue_data = Inr i \<Longrightarrow>
     si_package_name i = ''Unknown'' \<and> si_package_version i = ''Unknown''"
  by (auto simp: issue_of_def split: sum.splits option.splits)

lemma build_issues_unknown:
  "build_issues rv project_id project_name ds = Inr issues \<Longrightarrow> i \<in> set issues \<Longrightarrow>
     si_package_name i = ''Unknown'' \<and> si_package_version i = ''Unknown''"
proof (induction ds arbitrary: issues)
  case Nil
  then show ?case by simp
next
  case (Cons d ds)
  then show ?case
    by (auto split: sum.splits dest: issue_of_unknown)
qed

lemma get_project_issues_unknown:
  assumes "i \<in> set (fst (get_project_issues rv c project_id s))"
  shows "si_package_name i = ''Unknown'' \<and> si_package_version i = ''Unknown''"
  using assms
  by (auto simp: get_project_issues_def Let_def
      split: prod.splits sum.splits option.splits dest: build_issues_unknown)

lemma fetched_lists_from:
  "l \<in> set (fetched_lists fetch ps s) \<Longrightarrow> \<exists>p s'. l = fst (fetch p s')"
proof (induction ps arbitrary: s)
  case Nil
  then show ?case by simp
next
  case (Cons p ps)
  obtain l0 s1 where f: "fetch p s = (l0, s1)" by (cases "fetch p s")
  from Cons.prems f have "l = l0 \<or> l \<in> set (fetched_lists fetch ps s1)" by simp
  then show ?case
  proof
    assume "l = l0"
    then have "l = fst (fetch p s)" using f by simp
    then show ?thesis by blast
  next
    assume "l \<in> set (fetched_lists fetch ps s1)"
    then show ?thesis by (rule Cons.IH)
  qed
qed

text \<open>
  Claim C10. Every issue \<open>get_project_issues\<close> returns, in either revision, has the
  package name and version \<open>Unknown\<close>; so two fetched issues are equal exactly when
  their ids are, and the members of the set \<open>get_distinct_issues\<close> returns have
  pairwise different ids.
\<close>

theorem fetched_issues_keyed_by_id:
  "(\<forall>i\<in>set (fst (get_project_issues rv c project_id s)).
       si_package_name i = ''Unknown'' \<and> si_package_version i = ''Unknown'')
   \<and> (\<forall>a\<in>set (fst (get_project_issues rv c project_id s)).
       \<forall>b\<in>set (fst (get_project_issues rv' c' project_id' s')).
         issue_eq a b \<longleftrightarrow> si_id a = si_id b)
   \<and> distinct (map si_id (fst (get_distinct_issues rv c project_ids s)))"
proof -
  let ?res = "fst (get_distinct_issues rv c project_ids s)"
  have u: "\<forall>i\<in>set (fst (get_project_issues rv c project_id s)).
       si_package_name i = ''Unknown'' \<and> si_package_version i = ''Unknown''"
    using get_project_issues_unknown by blast
  have e: "\<forall>a\<in>set (fst (get_project_issues rv c project_id s)).
       \<forall>b\<in>set (fst (get_project_issues rv' c' project_id' s')).
         issue_eq a b \<longleftrightarrow> si_id a = si_id b"
  proof (intro ballI)
    fix a b
    assume a: "a \<in> set (fst (get_project_issues rv c project_id s))"
      and b: "b \<in> set (fst (get_project_issues rv' c' project_id' s'))"
    have "si_package_name a = ''Unknown'' \<and> si_package_version a = ''Unknown''"
      using a by (rule get_project_issues_unknown)
    moreover have "si_package_name b = ''Unknown'' \<and> si_package_version b = ''Unknown''"
      using b by (rule get_project_issues_unknown)
    ultimately show "issue_eq a b \<longleftrightarrow> si_id a = si_id b"
      by (simp add: issue_eq_def)
  qed
  have sub: "set ?res \<subseteq> set (concat (fetched_lists (get_project_issues rv c) project_ids s))"
    using distinct_issues_loop_subset [of "get_project_issues rv c" project_ids "[]" s]
    by (simp add: get_distinct_issues_def get_distinct_issues_via_def)
  have unk: "issue_key i = (si_id i, ''Unknown'', ''Unknown'')" if "i \<in> set ?res" for i
  proof -
    from that sub obtain l where l: "l \<in> set (fetched_lists (get_project_issues rv c) project_ids s)"
      and i: "i \<in> set l" by auto
    from fetched_lists_from [OF l] obtain p s' where "l = fst (get_project_issues rv c p s')"
      by blast
    with i get_project_issues_unknown [of i rv c p s'] show ?thesis
      by (simp add: issue_key_def)
  qed
  have dk: "distinct (map issue_key ?res)"
    using distinct_issues_loop_distinct [of "[]" "get_project_issues rv c" project_ids s]
    by (simp add: get_distinct_issues_def get_distinct_issues_via_def)
  have "inj_on issue_key (set ?res)"
    using dk by (simp add: distinct_map)
  then have "inj_on si_id (set ?res)"
    using unk by (auto simp: inj_on_def)
  moreover have "distinct ?res"
    using dk by (simp add: distinct_map)
  ultimately have "distinct (map si_id ?res)"
    by (simp add: distinct_map)
  with u e show ?thesis by blast
qed


lemma make_request_success:
  assumes "srv (length (sent s)) rq = Response r" "status_code r < 400"
  shows "make_request srv rq s = (Inr r, s\<lparr>sent := sent s @ [rq]\<rparr>)"
  unfolding make_request_def upt_max_retries
  using assms by (simp add: session_request_def raise_for_status_def)

lemma make_request_ok:
  "make_request (ok doc) rq s =
     (Inr \<lparr>status_code = 200, retry_after = None, json = Some doc\<rparr>, s\<lparr>sent := sent s @ [rq]\<rparr>)"
  by (rule make_request_success) (simp_all add: ok_def)


lemma make_request_ok_of:
  "make_request (\<lambda>n rq. ok (f rq) n rq) rq s =
     (Inr \<lparr>status_code = 200, retry_after = None, json = Some (f rq)\<rparr>,
      s\<lparr>sent := sent s @ [rq]\<rparr>)"
  by (rule make_request_success) (simp_all add: ok_def)

lemma service_issues:
  "get_project_issues rv service project s =
     (if project = ''p1'' then [fetched_lodash project]
      else if project = ''p2'' then [fetched_lodash project, fetched_minimist project]
      else [],
      s\<lparr>sent := sent s @
        [api_request service ''GET'' (''/rest/orgs/acme/projects/'' @ project),
         (api_request service ''GET'' ''/rest/orgs/acme/issues'')
           \<lparr>params := [(''project_id'', project), (''limit'', ''1000'')]\<rparr>]\<rparr>)"
  by (cases rv)
    (simp_all add: get_project_issues_def service_def make_request_ok make_request_ok_of
      api_request_def get_or_def
      project_issues_json_def issue_of_def problems_step_def lodash_json_def minimist_json_def
      fetched_lodash_def fetched_minimist_def)

text \<open>
  The theorem at the example service: the issue both projects report is kept once.
\<close>

theorem fetched_issues_keyed_by_id_witness:
  "fetched_lodash ''p1'' \<in> set (fst (get_project_issues First service ''p1'' start))
   \<and> si_package_name (fetched_lodash ''p1'') = ''Unknown''
   \<and> si_package_version (fetched_lodash ''p1'') = ''Unknown''
   \<and> fetched_lodash ''p2'' \<in> set (fst (get_project_issues Second service ''p2'' start))
   \<and> issue_eq (fetched_lodash ''p1'') (fetched_lodash ''p2'')
   \<and> distinct (map si_id (fst (get_distinct_issues First service [''p1'', ''p2''] start)))
   \<and> length (fst (get_distinct_issues First service [''p1'', ''p2''] start)) = 2"
proof -
  note th = fetched_issues_keyed_by_id [of First service "''p1''" start Second service "''p2''"
      start "[''p1'', ''p2'']"]
  have a: "fetched_lodash ''p1'' \<in> set (fst (get_project_issues First service ''p1'' start))"
    by (simp add: service_issues)
  have b: "fetched_lodash ''p2'' \<in> set (fst (get_project_issues Second service ''p2'' start))"
    by (simp add: service_issues)
  have u: "si_package_name (fetched_lodash ''p1'') = ''Unknown''
      \<and> si_package_version (fetched_lodash ''p1'') = ''Unknown''"
    using th a by blast
  have i: "si_id (fetched_lodash ''p1'') = si_id (fetched_lodash ''p2'')"
    by (simp add: fetched_lodash_def)
  have e: "issue_eq (fetched_lodash ''p1'') (fetched_lodash ''p2'')"
    using th a b i by blast
  have d: "distinct (map si_id (fst (get_distinct_issues First service [''p1'', ''p2''] start)))"
    using th by blast
  have "fst (get_distinct_issues First service [''p1'', ''p2''] start) =
      [fetched_lodash ''p1'', fetched_minimist ''p2'']"
    by (simp add: get_distinct_issues_def get_distinct_issues_via_def service_issues
        set_update_def set_add_def issue_eq_def fetched_lodash_def fetched_minimist_def)
  then have l: "length (fst (get_distinct_issues First service [''p1'', ''p2''] start)) = 2"
    by simp
  from a u b e d l show ?thesis by blast
qed

section \<open>Properties of the waiver policy\<close>

lemma waiver_is_active_sent:
  "waiver_is_active c e s = (b, s') \<Longrightarrow> sent s' = sent s"
  by (auto simp: waiver_is_active_def datetime_now_def split: option.splits if_splits)

lemma existing_waiver_of_sent:
  "existing_waiver_of c issue_id project_id waiver_data s = (r, s') \<Longrightarrow> sent s' = sent s"
  by (auto simp: existing_waiver_of_def split: prod.splits option.splits
      dest: waiver_is_active_sent)

lemma existing_waivers_loop_sent:
  "existing_waivers_loop c issue_id project_id ws s = (r, s') \<Longrightarrow> sent s' = sent s"
proof (induction ws arbitrary: s r s')
  case Nil
  then show ?case by simp
next
  case (Cons w ws)
  obtain r1 s1 where step: "existing_waiver_of c issue_id project_id w s = (r1, s1)"
    by (cases "existing_waiver_of c issue_id project_id w s")
  then have s1: "sent s1 = sent s"
    by (rule existing_waiver_of_sent)
  obtain r2 s2 where rest: "existing_waivers_loop c issue_id project_id ws s1 = (r2, s2)"
    by (cases "existing_waivers_loop c issue_id project_id ws s1")
  then have s2: "sent s2 = sent s1"
    by (rule Cons.IH)
  show ?case
    using Cons.prems step rest s1 s2
    by (auto split: sum.splits)
qed

lemma get_existing_waivers_sent:
  assumes "get_existing_waivers_for_issue c issue_id project_id s = (ws, s')"
  shows "\<exists>k\<le>3. sent s' =
     sent s @ replicate k (api_request c ''GET''
        (''/rest/orgs/'' @ org_id c @ ''/projects/'' @ project_id
           @ ''/issues/'' @ issue_id @ ''/waivers''))"
proof -
  define rq where "rq = api_request c ''GET''
        (''/rest/orgs/'' @ org_id c @ ''/projects/'' @ project_id
           @ ''/issues/'' @ issue_id @ ''/waivers'')"
  obtain r s1 where m: "make_request (waivers_api c) rq s = (r, s1)"
    by (cases "make_request (waivers_api c) rq s")
  from make_request_sent [of "waivers_api c" rq s] m
  obtain k where k: "k \<le> 3" "sent s1 = sent s @ replicate k rq" by auto
  have "sent s' = sent s1"
    using assms m unfolding get_existing_waivers_for_issue_def rq_def [symmetric]
    by (auto split: sum.splits option.splits prod.splits dest: existing_waivers_loop_sent)
  with k show ?thesis unfolding rq_def by auto
qed

lemma api_request_method: "http_method (api_request c meth endpoint) = meth"
  by (simp add: api_request_def)

text \<open>
  Claim C4. When \<open>skip_if_waived\<close> is true, the probe for the issue succeeds and one
  of the waivers fetched for the issue is active, \<open>smart_add_waiver\<close> returns the
  status \<open>skipped_existing_waiver\<close> in the state the fetch of the waivers left, and
  every request sent during the call is a \<open>GET\<close>: no request creates a waiver.
\<close>

theorem smart_add_waiver_skips_existing:
  assumes probe: "make_request (plain_api c)
        (api_request c ''GET''
           (''/rest/orgs/'' @ org_id c @ ''/projects/'' @ project_id @ ''/issues/'' @ issue_id)) s
      = (Inr issue_response, s1)"
    and existing: "get_existing_waivers_for_issue c issue_id project_id s1 = (existing_waivers, s2)"
    and active: "\<exists>w\<in>set existing_waivers. sw_is_active w"
  shows "smart_add_waiver c issue_id project_id waiver_description waiver_type days True s =
      (Inr \<lparr>status = ''skipped_existing_waiver''\<rparr>, s2)
    \<and> (\<exists>new. sent s2 = sent s @ new \<and> list_all (\<lambda>rq. http_method rq = ''GET'') new)"
proof -
  let ?probe = "api_request c ''GET''
           (''/rest/orgs/'' @ org_id c @ ''/projects/'' @ project_id @ ''/issues/'' @ issue_id)"
  let ?listing = "api_request c ''GET''
        (''/rest/orgs/'' @ org_id c @ ''/projects/'' @ project_id
           @ ''/issues/'' @ issue_id @ ''/waivers'')"
  from active have "filter sw_is_active existing_waivers \<noteq> []"
    by (simp add: filter_empty_conv)
  then have res: "smart_add_waiver c issue_id project_id waiver_description waiver_type days True s =
      (Inr \<lparr>status = ''skipped_existing_waiver''\<rparr>, s2)"
    using probe existing by (simp add: smart_add_waiver_def)
  from make_request_sent [of "plain_api c" ?probe s] probe
  obtain j where j: "sent s1 = sent s @ replicate j ?probe" by auto
  from get_existing_waivers_sent [OF existing]
  obtain k where k: "sent s2 = sent s1 @ replicate k ?listing" by auto
  have "sent s2 = sent s @ (replicate j ?probe @ replicate k ?listing)"
    using j k by simp
  moreover have "list_all (\<lambda>rq. http_method rq = ''GET'') (replicate j ?probe @ replicate k ?listing)"
    by (auto simp: list_all_iff api_request_method)
  ultimately show ?thesis using res by blast
qed

lemma add_waiver_raises:
  "add_waiver c issue_id project_id d t days s = (Inl e, s') \<Longrightarrow>
     e = OverflowError \<and> add_days (clock c (ticks s)) days = Inl OverflowError"
  by (auto simp: add_waiver_def datetime_now_def add_days_def Let_def
      split: sum.splits prod.splits if_splits)

lemma add_and_report_cases:
  "add_and_report c issue_id project_id d t days s = (res, s') \<Longrightarrow>
     (res = Inl OverflowError \<and> add_days (clock c (ticks s)) days = Inl OverflowError)
     \<or> res = Inr \<lparr>status = ''added''\<rparr> \<or> res = Inr \<lparr>status = ''failed''\<rparr>"
  by (auto simp: add_and_report_def split: sum.splits prod.splits if_splits
      dest: add_waiver_raises)

lemma smart_add_waiver_cases:
  assumes "smart_add_waiver c issue_id project_id d t days skip s = (res, s')"
  shows "(res = Inl OverflowError \<and> (\<exists>n. add_days (clock c n) days = Inl OverflowError))
     \<or> (\<exists>r. res = Inr r \<and> status r \<in> {''added'', ''skipped_existing_waiver'',
           ''skipped_no_issue'', ''failed''})"
proof -
  let ?probe = "api_request c ''GET''
           (''/rest/orgs/'' @ org_id c @ ''/projects/'' @ project_id @ ''/issues/'' @ issue_id)"
  obtain p s1 where probe: "make_request (plain_api c) ?probe s = (p, s1)"
    by (cases "make_request (plain_api c) ?probe s")
  show ?thesis
  proof (cases p)
    case (Inl e)
    then show ?thesis using assms probe by (auto simp: smart_add_waiver_def)
  next
    case (Inr r)
    obtain ws s2 where ex: "get_existing_waivers_for_issue c issue_id project_id s1 = (ws, s2)"
      by (cases "get_existing_waivers_for_issue c issue_id project_id s1")
    show ?thesis
    proof (cases "skip \<and> filter sw_is_active ws \<noteq> []")
      case True
      then show ?thesis using assms probe Inr ex by (auto simp: smart_add_waiver_def)
    next
      case False
      then have "\<exists>s0. add_and_report c issue_id project_id d t days s0 = (res, s')"
        using assms probe Inr ex
        by (auto simp: smart_add_waiver_def Let_def split: if_splits)
      then obtain s0 where "add_and_report c issue_id project_id d t days s0 = (res, s')" ..
      from add_and_report_cases [OF this] show ?thesis by auto
    qed
  qed
qed

text \<open>
  Claim C5. When the probe for the issue raises, \<open>smart_add_waiver\<close> returns
  \<open>skipped_no_issue\<close> in the state the probe left, whatever \<open>skip_if_waived\<close> is and
  whatever the waivers of the issue are (they are not fetched). Every status it returns
  is one of \<open>added\<close>, \<open>skipped_existing_waiver\<close>, \<open>skipped_no_issue\<close> and
  \<open>failed\<close>; and it does return one unless the expiry date of the new waiver is out
  of range, the only exception that leaves it.
\<close>

theorem smart_add_waiver_outcomes:
  "(\<forall>e s1. make_request (plain_api c)
        (api_request c ''GET''
           (''/rest/orgs/'' @ org_id c @ ''/projects/'' @ project_id @ ''/issues/'' @ issue_id)) s
        = (Inl e, s1)
      \<longrightarrow> smart_add_waiver c issue_id project_id waiver_description waiver_type days
            skip_if_waived s = (Inr \<lparr>status = ''skipped_no_issue''\<rparr>, s1))
   \<and> (\<forall>r s'. smart_add_waiver c issue_id project_id waiver_description waiver_type days
            skip_if_waived s = (Inr r, s')
      \<longrightarrow> status r \<in> {''added'', ''skipped_existing_waiver'', ''skipped_no_issue'', ''failed''})
   \<and> (\<forall>e s'. smart_add_waiver c issue_id project_id waiver_description waiver_type days
            skip_if_waived s = (Inl e, s')
      \<longrightarrow> e = OverflowError \<and> (\<exists>n. add_days (clock c n) days = Inl OverflowError))
   \<and> ((\<forall>n. add_days (clock c n) days \<noteq> Inl OverflowError)
      \<longrightarrow> (\<exists>r s'. smart_add_waiver c issue_id project_id waiver_description waiver_type days
            skip_if_waived s = (Inr r, s')))"
proof -
  let ?run = "smart_add_waiver c issue_id project_id waiver_description waiver_type days
            skip_if_waived s"
  have a: "?run = (Inr \<lparr>status = ''skipped_no_issue''\<rparr>, s1)"
    if "make_request (plain_api c)
        (api_request c ''GET''
           (''/rest/orgs/'' @ org_id c @ ''/projects/'' @ project_id @ ''/issues/'' @ issue_id)) s
        = (Inl e, s1)" for e s1
    using that by (simp add: smart_add_waiver_def)
  have b: "status r \<in> {''added'', ''skipped_existing_waiver'', ''skipped_no_issue'', ''failed''}"
    if "?run = (Inr r, s')" for r s'
    using smart_add_waiver_cases [OF that] by auto
  have cc: "e = OverflowError \<and> (\<exists>n. add_days (clock c n) days = Inl OverflowError)"
    if "?run = (Inl e, s')" for e s'
    using smart_add_waiver_cases [OF that] by auto
  have d: "\<exists>r s'. ?run = (Inr r, s')" if "\<forall>n. add_days (clock c n) days \<noteq> Inl OverflowError"
  proof -
    obtain res s' where run: "?run = (res, s')" by (cases ?run)
    from smart_add_waiver_cases [OF run] that obtain r where "res = Inr r" by auto
    with run show ?thesis by blast
  qed
  from a b cc d show ?thesis by blast
qed


subsection \<open>Runs against the example service\<close>

lemma service_probe:
  "make_request (plain_api service) probe s =
     (Inr \<lparr>status_code = 200, retry_after = None, json = Some ()\<rparr>, s\<lparr>sent := sent s @ [probe]\<rparr>)"
  by (simp add: service_def make_request_ok)

lemma service_existing:
  "get_existing_waivers_for_issue service ''SNYK-JS-LODASH-1'' ''p1'' s =
     ([existing_waiver], s\<lparr>sent := sent s @ [listing], ticks := Suc (ticks s)\<rparr>)"
proof -
  have rq: "api_request service ''GET''
      (''/rest/orgs/'' @ org_id service @ ''/projects/'' @ ''p1''
         @ ''/issues/'' @ ''SNYK-JS-LODASH-1'' @ ''/waivers'') = listing"
    by (simp add: listing_def service_def)
  have m: "make_request (waivers_api service) listing s =
      (Inr \<lparr>status_code = 200, retry_after = None,
            json = Some [waiver_json_expiring (Some ''2026-11-14T00:00:00Z'')]\<rparr>,
       s\<lparr>sent := sent s @ [listing]\<rparr>)"
    by (simp add: service_def make_request_ok)
  have a: "waiver_is_active service ''2026-11-14T00:00:00Z'' s' =
      (True, s'\<lparr>ticks := Suc (ticks s')\<rparr>)" for s'
    by (simp add: waiver_is_active_def replace_Z_def parse_example_def datetime_now_def
        service_def)
  show ?thesis
    unfolding get_existing_waivers_for_issue_def rq
    by (simp add: m existing_waiver_of_def waiver_json_expiring_def get_or_def a
        existing_waiver_def)
qed

lemma service_probe_request:
  "api_request service ''GET''
     (''/rest/orgs/'' @ org_id service @ ''/projects/'' @ ''p1'' @ ''/issues/''
        @ ''SNYK-JS-LODASH-1'') = probe"
  by (simp add: probe_def service_def)

text \<open>
  The theorem at the example service: the template \<open>upgrade_planned\<close> (90 days,
  \<open>temporary\<close>) applied to an issue whose waiver expires in ten days.
\<close>

theorem smart_add_waiver_skips_existing_witness:
  "smart_add_waiver service ''SNYK-JS-LODASH-1'' ''p1'' ''Upgrade planned'' ''temporary'' 90 True
     start =
     (Inr \<lparr>status = ''skipped_existing_waiver''\<rparr>,
      \<lparr>sent = [probe, listing], slept = [], ticks = 1, refused = never\<rparr>)
   \<and> list_all (\<lambda>rq. http_method rq = ''GET'') [probe, listing]"
proof -
  let ?s1 = "start\<lparr>sent := sent start @ [probe]\<rparr>"
  let ?s2 = "?s1\<lparr>sent := sent ?s1 @ [listing], ticks := Suc (ticks ?s1)\<rparr>"
  have p: "make_request (plain_api service)
      (api_request service ''GET''
         (''/rest/orgs/'' @ org_id service @ ''/projects/'' @ ''p1'' @ ''/issues/''
            @ ''SNYK-JS-LODASH-1'')) start
      = (Inr \<lparr>status_code = 200, retry_after = None, json = Some ()\<rparr>, ?s1)"
    unfolding service_probe_request by (rule service_probe)
  have e: "get_existing_waivers_for_issue service ''SNYK-JS-LODASH-1'' ''p1'' ?s1 =
      ([existing_waiver], ?s2)"
    by (rule service_existing)
  have a: "\<exists>w\<in>set [existing_waiver]. sw_is_active w"
    by (simp add: existing_waiver_def)
  from smart_add_waiver_skips_existing [OF p e a, of "''Upgrade planned''" "''temporary''" 90]
  show ?thesis
    by (simp add: start_def probe_def listing_def api_request_def)
qed


lemma always_404_probe:
  "make_request (always 404 :: unit endpoint) rq start =
     (Inl (HTTPError 404), \<lparr>sent = [rq, rq, rq], slept = [1, 2], ticks = 0, refused = never\<rparr>)"
  unfolding make_request_def upt_max_retries
  by (simp add: always_def start_def session_request_def
      time_sleep_def sleep_max_def sleep_sure_def raise_for_status_def on_request_exception_def
      max_retries_def backoff_factor_def)

lemma service_smart_skip:
  "smart_add_waiver service ''SNYK-JS-LODASH-1'' ''p1'' ''Upgrade planned'' ''temporary'' 90 True
     start =
     (Inr \<lparr>status = ''skipped_existing_waiver''\<rparr>,
      \<lparr>sent = [probe, listing], slept = [], ticks = 1, refused = never\<rparr>)"
  unfolding smart_add_waiver_def service_probe_request
  by (simp add: service_probe service_existing existing_waiver_def start_def)

lemma service_overflow:
  "smart_add_waiver service ''SNYK-JS-LODASH-1'' ''p1'' ''Upgrade planned'' ''temporary'' 4000000
     False start =
     (Inl OverflowError, \<lparr>sent = [probe], slept = [], ticks = 1, refused = never\<rparr>)"
  unfolding smart_add_waiver_def service_probe_request
  by (simp add: service_probe make_request_ok add_and_report_def add_waiver_def datetime_now_def
      add_days_def datetime_end_def service_def start_def)

text \<open>
  The theorem at the example service: with probes answered by 404 the issue that has an
  active waiver is reported as \<open>skipped_no_issue\<close>; and a waiver of 4000000 days
  is the out-of-range case.
\<close>

theorem smart_add_waiver_outcomes_witness:
  "smart_add_waiver (service\<lparr>plain_api := always 404\<rparr>) ''SNYK-JS-LODASH-1'' ''p1''
       ''Upgrade planned'' ''temporary'' 90 True start =
     (Inr \<lparr>status = ''skipped_no_issue''\<rparr>,
      \<lparr>sent = [probe, probe, probe], slept = [1, 2], ticks = 0, refused = never\<rparr>)
   \<and> smart_add_waiver (service\<lparr>plain_api := always 404\<rparr>) ''SNYK-JS-LODASH-1'' ''p1''
       ''Upgrade planned'' ''temporary'' 90 False start =
     (Inr \<lparr>status = ''skipped_no_issue''\<rparr>,
      \<lparr>sent = [probe, probe, probe], slept = [1, 2], ticks = 0, refused = never\<rparr>)
   \<and> ''skipped_existing_waiver'' \<in>
       {''added'', ''skipped_existing_waiver'', ''skipped_no_issue'', ''failed''}
   \<and> (\<exists>n. add_days (clock service n) 4000000 = Inl OverflowError)
   \<and> (\<exists>r s'. smart_add_waiver service ''SNYK-JS-LODASH-1'' ''p1'' ''Upgrade planned''
         ''temporary'' 90 True start = (Inr r, s'))"
proof -
  let ?c = "service\<lparr>plain_api := always 404\<rparr>"
  let ?down = "\<lparr>sent = [probe, probe, probe], slept = [1, 2], ticks = 0, refused = never\<rparr>"
  have rq: "api_request ?c ''GET''
      (''/rest/orgs/'' @ org_id ?c @ ''/projects/'' @ ''p1'' @ ''/issues/''
         @ ''SNYK-JS-LODASH-1'') = probe"
    by (simp add: probe_def service_def api_request_def)
  have p: "make_request (plain_api ?c)
      (api_request ?c ''GET''
         (''/rest/orgs/'' @ org_id ?c @ ''/projects/'' @ ''p1'' @ ''/issues/''
            @ ''SNYK-JS-LODASH-1'')) start = (Inl (HTTPError 404), ?down)"
    unfolding rq by (simp add: always_404_probe)
  have a: "smart_add_waiver ?c ''SNYK-JS-LODASH-1'' ''p1'' ''Upgrade planned'' ''temporary'' 90
      skip start = (Inr \<lparr>status = ''skipped_no_issue''\<rparr>, ?down)" for skip
    using smart_add_waiver_outcomes [of ?c "''p1''" "''SNYK-JS-LODASH-1''" start
        "''Upgrade planned''" "''temporary''" 90 skip] p
    by blast
  have b: "status \<lparr>status = ''skipped_existing_waiver''\<rparr> \<in>
       {''added'', ''skipped_existing_waiver'', ''skipped_no_issue'', ''failed''}"
    using smart_add_waiver_outcomes [of service "''p1''" "''SNYK-JS-LODASH-1''" start
        "''Upgrade planned''" "''temporary''" 90 True] service_smart_skip
    by blast
  have o: "\<exists>n. add_days (clock service n) 4000000 = Inl OverflowError"
    using smart_add_waiver_outcomes [of service "''p1''" "''SNYK-JS-LODASH-1''" start
        "''Upgrade planned''" "''temporary''" 4000000 False] service_overflow
    by blast
  have "\<forall>n. add_days (clock service n) 90 \<noteq> Inl OverflowError"
    by (simp add: add_days_def service_def datetime_end_def)
  then have d: "\<exists>r s'. smart_add_waiver service ''SNYK-JS-LODASH-1'' ''p1'' ''Upgrade planned''
         ''temporary'' 90 True start = (Inr r, s')"
    using smart_add_waiver_outcomes [of service "''p1''" "''SNYK-JS-LODASH-1''" start
        "''Upgrade planned''" "''temporary''" 90 True]
    by blast
  from a [of True] a [of False] b o d show ?thesis by simp
qed

section \<open>Waivers without a usable expiry\<close>

lemma expiry_unusable_get_or:
  "expiry_unusable c (Some (get_or e [])) \<longleftrightarrow> expiry_unusable c e"
  by (cases e) (simp_all add: expiry_unusable_def get_or_def)

lemma waiver_is_active_unusable:
  "expiry_unusable c e \<Longrightarrow> waiver_is_active c (get_or e []) s = (True, s)"
  by (cases e) (auto simp: expiry_unusable_def get_or_def waiver_is_active_def)

lemma waiver_is_active_False:
  assumes "waiver_is_active c (get_or e []) s = (False, s')"
  shows "\<exists>x. e = Some x \<and> \<not> expiry_unusable c (Some x)"
proof (cases "expiry_unusable c e")
  case True
  from waiver_is_active_unusable [OF this, of s] assms show ?thesis by simp
next
  case False
  then obtain x where "e = Some x" by (cases e) (auto simp: expiry_unusable_def)
  with False show ?thesis by blast
qed

lemma existing_waiver_of_record:
  assumes "existing_waiver_of c issue_id project_id waiver_data s = (Inr w, s')"
  shows "sw_expiry_date w = get_or (wj_expiry waiver_data) []
     \<and> waiver_is_active c (get_or (wj_expiry waiver_data) []) s = (sw_is_active w, s')"
  using assms
  by (auto simp: existing_waiver_of_def split: prod.splits option.splits)

lemma existing_waiver_of_active:
  assumes "existing_waiver_of c issue_id project_id waiver_data s = (Inr w, s')"
    and "expiry_unusable c (Some (sw_expiry_date w))"
  shows "sw_is_active w"
proof -
  from existing_waiver_of_record [OF assms(1)]
  have f: "sw_expiry_date w = get_or (wj_expiry waiver_data) []"
    and a: "waiver_is_active c (get_or (wj_expiry waiver_data) []) s = (sw_is_active w, s')"
    by simp_all
  from assms(2) f have "expiry_unusable c (wj_expiry waiver_data)"
    by (simp add: expiry_unusable_get_or)
  from waiver_is_active_unusable [OF this, of s] a show ?thesis by simp
qed

lemma existing_waivers_loop_active:
  "existing_waivers_loop c issue_id project_id doc s = (Inr ws, s') \<Longrightarrow> w \<in> set ws \<Longrightarrow>
     expiry_unusable c (Some (sw_expiry_date w)) \<Longrightarrow> sw_is_active w"
proof (induction doc arbitrary: s ws)
  case Nil
  then show ?case by simp
next
  case (Cons d doc)
  from Cons.prems(1) obtain w0 s1 ws0 where
    one: "existing_waiver_of c issue_id project_id d s = (Inr w0, s1)"
    and others: "existing_waivers_loop c issue_id project_id doc s1 = (Inr ws0, s')"
    and ws: "ws = w0 # ws0"
    by (auto split: prod.splits sum.splits)
  from Cons.prems(2) ws have "w = w0 \<or> w \<in> set ws0" by simp
  then show ?case
  proof
    assume "w = w0"
    with one Cons.prems(3) show ?thesis by (auto dest: existing_waiver_of_active)
  next
    assume "w \<in> set ws0"
    from Cons.IH [OF others this Cons.prems(3)] show ?thesis .
  qed
qed

lemma get_existing_waivers_active:
  assumes "w \<in> set (fst (get_existing_waivers_for_issue c issue_id project_id s))"
    and "expiry_unusable c (Some (sw_expiry_date w))"
  shows "sw_is_active w"
proof -
  define rq where "rq = api_request c ''GET''
        (''/rest/orgs/'' @ org_id c @ ''/projects/'' @ project_id
           @ ''/issues/'' @ issue_id @ ''/waivers'')"
  from assms(1) obtain doc s1 ws s2
    where "existing_waivers_loop c issue_id project_id doc s1 = (Inr ws, s2)" and "w \<in> set ws"
    unfolding get_existing_waivers_for_issue_def rq_def [symmetric]
    by (auto split: prod.splits sum.splits option.splits)
  then show ?thesis using assms(2) by (rule existing_waivers_loop_active)
qed

text \<open>A waiver list whose elements all carry an id is turned into records one by one.\<close>

lemma existing_waivers_loop_total:
  "list_all (\<lambda>d. wj_id d \<noteq> None) doc \<Longrightarrow>
     \<exists>ws s'. existing_waivers_loop c issue_id project_id doc s = (Inr ws, s')
       \<and> (list_ex (\<lambda>d. expiry_unusable c (wj_expiry d)) doc \<longrightarrow> list_ex sw_is_active ws)"
proof (induction doc arbitrary: s)
  case Nil
  show ?case by simp
next
  case (Cons d doc)
  from Cons.prems obtain i where i: "wj_id d = Some i" and ids: "list_all (\<lambda>d. wj_id d \<noteq> None) doc"
    by auto
  obtain b s1 where act: "waiver_is_active c (get_or (wj_expiry d) []) s = (b, s1)"
    by (cases "waiver_is_active c (get_or (wj_expiry d) []) s")
  from i act obtain w0 where one: "existing_waiver_of c issue_id project_id d s = (Inr w0, s1)"
    and b: "sw_is_active w0 = b"
    by (simp add: existing_waiver_of_def)
  from Cons.IH [OF ids, of s1] obtain ws s' where
    others: "existing_waivers_loop c issue_id project_id doc s1 = (Inr ws, s')"
    and ex: "list_ex (\<lambda>d. expiry_unusable c (wj_expiry d)) doc \<longrightarrow> list_ex sw_is_active ws"
    by blast
  have "expiry_unusable c (wj_expiry d) \<longrightarrow> sw_is_active w0"
    using waiver_is_active_unusable [of c "wj_expiry d" s] act b by auto
  with one others ex show ?case by auto
qed

lemma all_waivers_step_unusable:
  assumes "expiry_unusable c (wj_expiry waiver_data)" and "wj_id waiver_data = Some i"
  shows "\<exists>w s'. all_waivers_step c project_id project_name active_only waiver_data all_waivers s
       = (Inr (all_waivers @ [w]), s') \<and> sw_id w = i \<and> sw_is_active w"
proof -
  obtain info s1 where wi: "waiver_issue c waiver_data s = (info, s1)"
    by (cases "waiver_issue c waiver_data s")
  obtain issue_id title severity where info: "info = (issue_id, title, severity)"
    by (cases info)
  have act: "waiver_is_active c (get_or (wj_expiry waiver_data) []) s1 = (True, s1)"
    using assms(1) by (rule waiver_is_active_unusable)
  show ?thesis
    using wi info act assms(2) by (simp add: all_waivers_step_def)
qed

lemma all_waivers_step_settled:
  assumes "all_waivers_step c project_id project_name active_only waiver_data all_waivers s
      = (Inr all_waivers', s')"
    and "list_all (settled c) all_waivers"
  shows "list_all (settled c) all_waivers'"
proof -
  obtain info s1 where wi: "waiver_issue c waiver_data s = (info, s1)"
    by (cases "waiver_issue c waiver_data s")
  obtain issue_id title severity where info: "info = (issue_id, title, severity)"
    by (cases info)
  obtain b s2 where act: "waiver_is_active c (get_or (wj_expiry waiver_data) []) s1 = (b, s2)"
    by (cases "waiver_is_active c (get_or (wj_expiry waiver_data) []) s1")
  have usable: "\<exists>x. wj_expiry waiver_data = Some x \<and> \<not> expiry_unusable c (Some x)" if "\<not> b"
    using act that waiver_is_active_False [of c "wj_expiry waiver_data" s1 s2] by simp
  show ?thesis
  proof (cases "active_only \<and> \<not> b")
    case True
    then show ?thesis using assms wi info act by (simp add: all_waivers_step_def)
  next
    case False
    with assms(1) wi info act obtain w where w: "all_waivers' = all_waivers @ [w]"
      and a: "sw_is_active w = b"
      and e: "sw_expiry_date w = get_or (wj_expiry waiver_data) ''unknown''"
      by (auto simp: all_waivers_step_def split: option.splits)
    have "settled c w"
    proof (cases b)
      case True
      then show ?thesis using a by (simp add: settled_def)
    next
      case False
      from usable [OF this] e show ?thesis by (auto simp: settled_def get_or_def)
    qed
    with w assms(2) show ?thesis by simp
  qed
qed

lemma project_waivers_loop_settled:
  "list_all (settled c) all_waivers \<Longrightarrow>
     list_all (settled c)
       (fst (project_waivers_loop c project_id project_name active_only doc all_waivers s))"
proof (induction doc arbitrary: all_waivers s)
  case Nil
  then show ?case by simp
next
  case (Cons d doc)
  obtain r s1 where step:
    "all_waivers_step c project_id project_name active_only d all_waivers s = (r, s1)"
    by (cases "all_waivers_step c project_id project_name active_only d all_waivers s")
  show ?case
  proof (cases r)
    case (Inl e)
    then show ?thesis using step Cons.prems by simp
  next
    case (Inr all_waivers')
    with step Cons.prems have "list_all (settled c) all_waivers'"
      by (auto dest: all_waivers_step_settled)
    from Cons.IH [OF this, of s1] step Inr show ?thesis by simp
  qed
qed

lemma project_waivers_settled:
  assumes "list_all (settled c) all_waivers"
  shows "list_all (settled c) (fst (project_waivers c active_only project_id all_waivers s))"
proof -
  define rq1 where "rq1 = api_request c ''GET''
      (''/rest/orgs/'' @ org_id c @ ''/projects/'' @ project_id)"
  define rq2 where "rq2 = (api_request c ''GET''
      (''/rest/orgs/'' @ org_id c @ ''/projects/'' @ project_id @ ''/waivers''))
        \<lparr>params := [(''limit'', ''1000'')]\<rparr>"
  show ?thesis
    unfolding project_waivers_def rq1_def [symmetric] rq2_def [symmetric]
    using assms project_waivers_loop_settled [OF assms]
    by (auto simp: Let_def split: prod.splits sum.splits option.splits)
qed

lemma all_waivers_loop_settled:
  "list_all (settled c) all_waivers \<Longrightarrow>
     list_all (settled c) (fst (all_waivers_loop c active_only project_ids all_waivers s))"
proof (induction project_ids arbitrary: all_waivers s)
  case Nil
  then show ?case by simp
next
  case (Cons p ps)
  obtain all' s1 where step: "project_waivers c active_only p all_waivers s = (all', s1)"
    by (cases "project_waivers c active_only p all_waivers s")
  with project_waivers_settled [OF Cons.prems, of active_only p s]
  have "list_all (settled c) all'" by simp
  from Cons.IH [OF this, of s1] step show ?case by simp
qed

lemma get_all_waivers_settled:
  "list_all (settled c) (fst (get_all_waivers c project_ids active_only s))"
  unfolding get_all_waivers_def by (rule all_waivers_loop_settled) simp


lemma expired_waivers_fst:
  "fst (expired_waivers c project_ids s) =
     (if project_ids = [] then []
      else filter (\<lambda>w. \<not> sw_is_active w) (fst (get_all_waivers c project_ids False s)))"
  by (simp add: expired_waivers_def split: prod.splits)

text \<open>
  Claim C9. For a waiver whose \<open>expiry\<close> attribute is missing, empty or refused
  by the ISO parser, \<open>is_active\<close> is computed as true without reading the clock: the
  record \<open>get_existing_waivers_for_issue\<close> builds from it is active, and the turn of
  \<open>get_all_waivers\<close> for it appends an active record whether or not only active
  waivers are asked for. Hence every record returned by
  \<open>get_existing_waivers_for_issue\<close> or \<open>get_all_waivers\<close> whose expiry date is
  empty or unparseable is active; a waiver list with such a waiver makes
  \<open>smart_add_waiver\<close> answer \<open>skipped_existing_waiver\<close>; and every waiver the
  cleanup of expired waivers selects has an expiry that was parsed.
\<close>

theorem unusable_expiry_is_active:
  "(expiry_unusable c (wj_expiry waiver_data) \<longrightarrow>
      waiver_is_active c (get_or (wj_expiry waiver_data) []) s = (True, s)
      \<and> (\<forall>w s'. existing_waiver_of c issue_id project_id waiver_data s = (Inr w, s')
            \<longrightarrow> sw_is_active w)
      \<and> (\<forall>i. wj_id waiver_data = Some i \<longrightarrow>
            (\<exists>w s'. all_waivers_step c project_id project_name active_only waiver_data
                       all_waivers s = (Inr (all_waivers @ [w]), s')
                     \<and> sw_id w = i \<and> sw_is_active w)))
   \<and> (\<forall>w\<in>set (fst (get_existing_waivers_for_issue c issue_id project_id s)).
        expiry_unusable c (Some (sw_expiry_date w)) \<longrightarrow> sw_is_active w)
   \<and> (\<forall>issue_response s1 waivers_response s2 waivers_data.
        make_request (plain_api c)
          (api_request c ''GET''
             (''/rest/orgs/'' @ org_id c @ ''/projects/'' @ project_id @ ''/issues/'' @ issue_id)) s
          = (Inr issue_response, s1)
        \<and> make_request (waivers_api c)
            (api_request c ''GET''
               (''/rest/orgs/'' @ org_id c @ ''/projects/'' @ project_id
                  @ ''/issues/'' @ issue_id @ ''/waivers'')) s1
          = (Inr waivers_response, s2)
        \<and> json waivers_response = Some waivers_data
        \<and> list_all (\<lambda>d. wj_id d \<noteq> None) waivers_data
        \<and> list_ex (\<lambda>d. expiry_unusable c (wj_expiry d)) waivers_data
        \<longrightarrow> fst (smart_add_waiver c issue_id project_id waiver_description waiver_type days
                   True s) = Inr \<lparr>status = ''skipped_existing_waiver''\<rparr>)
   \<and> (\<forall>w\<in>set (fst (get_all_waivers c project_ids active_only s)).
        expiry_unusable c (Some (sw_expiry_date w)) \<longrightarrow> sw_is_active w)
   \<and> (\<forall>w\<in>set (fst (expired_waivers c project_ids s)).
        \<not> expiry_unusable c (Some (sw_expiry_date w)))"
proof -
  have one: "waiver_is_active c (get_or (wj_expiry waiver_data) []) s = (True, s)
      \<and> (\<forall>w s'. existing_waiver_of c issue_id project_id waiver_data s = (Inr w, s')
            \<longrightarrow> sw_is_active w)
      \<and> (\<forall>i. wj_id waiver_data = Some i \<longrightarrow>
            (\<exists>w s'. all_waivers_step c project_id project_name active_only waiver_data
                       all_waivers s = (Inr (all_waivers @ [w]), s')
                     \<and> sw_id w = i \<and> sw_is_active w))"
    if u: "expiry_unusable c (wj_expiry waiver_data)"
  proof (intro conjI allI impI)
    show "waiver_is_active c (get_or (wj_expiry waiver_data) []) s = (True, s)"
      using u by (rule waiver_is_active_unusable)
  next
    fix w s'
    assume "existing_waiver_of c issue_id project_id waiver_data s = (Inr w, s')"
    from existing_waiver_of_record [OF this] waiver_is_active_unusable [OF u, of s]
    show "sw_is_active w" by simp
  next
    fix i
    assume "wj_id waiver_data = Some i"
    with u show "\<exists>w s'. all_waivers_step c project_id project_name active_only waiver_data
        all_waivers s = (Inr (all_waivers @ [w]), s') \<and> sw_id w = i \<and> sw_is_active w"
      by (rule all_waivers_step_unusable)
  qed
  have two: "\<forall>w\<in>set (fst (get_existing_waivers_for_issue c issue_id project_id s)).
        expiry_unusable c (Some (sw_expiry_date w)) \<longrightarrow> sw_is_active w"
    using get_existing_waivers_active by blast
  have three: "fst (smart_add_waiver c issue_id project_id waiver_description waiver_type days
                   True s) = Inr \<lparr>status = ''skipped_existing_waiver''\<rparr>"
    if h: "make_request (plain_api c)
          (api_request c ''GET''
             (''/rest/orgs/'' @ org_id c @ ''/projects/'' @ project_id @ ''/issues/'' @ issue_id)) s
          = (Inr issue_response, s1)
        \<and> make_request (waivers_api c)
            (api_request c ''GET''
               (''/rest/orgs/'' @ org_id c @ ''/projects/'' @ project_id
                  @ ''/issues/'' @ issue_id @ ''/waivers'')) s1
          = (Inr waivers_response, s2)
        \<and> json waivers_response = Some waivers_data
        \<and> list_all (\<lambda>d. wj_id d \<noteq> None) waivers_data
        \<and> list_ex (\<lambda>d. expiry_unusable c (wj_expiry d)) waivers_data"
    for issue_response s1 waivers_response s2 waivers_data
  proof -
    from h existing_waivers_loop_total [of waivers_data c issue_id project_id s2]
    obtain ws s3 where loop: "existing_waivers_loop c issue_id project_id waivers_data s2 = (Inr ws, s3)"
      and act: "list_ex sw_is_active ws"
      by blast
    from h loop have ex: "get_existing_waivers_for_issue c issue_id project_id s1 = (ws, s3)"
      by (simp add: get_existing_waivers_for_issue_def)
    from act have "filter sw_is_active ws \<noteq> []"
      by (simp add: filter_empty_conv list_ex_iff)
    with h ex show ?thesis
      by (simp add: smart_add_waiver_def)
  qed
  have four: "\<forall>w\<in>set (fst (get_all_waivers c project_ids active_only s)).
        expiry_unusable c (Some (sw_expiry_date w)) \<longrightarrow> sw_is_active w"
    using get_all_waivers_settled [of c project_ids active_only s]
    by (auto simp: list_all_iff settled_def)
  have five: "\<forall>w\<in>set (fst (expired_waivers c project_ids s)).
        \<not> expiry_unusable c (Some (sw_expiry_date w))"
    using get_all_waivers_settled [of c project_ids False s]
    by (auto simp: expired_waivers_fst list_all_iff settled_def)
  from one two three four five show ?thesis by blast
qed


subsection \<open>Runs against the example service with other waivers\<close>

lemma service_with_fields:
  "org_id (service_with ws) = ''acme''" "base_url (service_with ws) = ''https://api.snyk.io''"
  "plain_api (service_with ws) = ok ()" "waivers_api (service_with ws) = ok ws"
  "projects_api (service_with ws) = ok \<lparr>pd_name = Some ''shop''\<rparr>"
  "issue_api (service_with ws) =
     ok \<lparr>idt_title = Some ''Prototype Pollution'', idt_severity = Some ''high''\<rparr>"
  "clock (service_with ws) = (\<lambda>n. 63929347200000000)"
  "fromisoformat (service_with ws) = parse_example"
  by (simp_all add: service_with_def service_def)

lemma parse_example_simps:
  "parse_example (replace_Z ''soon'') = None"
  "parse_example (replace_Z ''unknown'') = None"
  "parse_example (replace_Z ''2020-01-01T00:00:00Z'') = Some 63713433600000000"
  by (simp_all add: parse_example_def replace_Z_def)

lemma service_with_all_waivers:
  "fst (get_all_waivers
          (service_with [waiver_json_expiring (Some ''2020-01-01T00:00:00Z''),
                         waiver_json_expiring None]) [''p1''] active_only start) =
     (if active_only then [] else
        [\<lparr>sw_id = ''w-1'', sw_issue_id = ''SNYK-JS-LODASH-1'', sw_project_id = ''p1'',
          sw_project_name = ''shop'', sw_reason = ''Upgrade planned'',
          sw_waiver_type = ''temporary'', sw_created_date = ''2026-08-16T00:00:00Z'',
          sw_expiry_date = ''2020-01-01T00:00:00Z'', sw_created_by = ''dev'',
          sw_is_active = False, sw_issue_title = ''Prototype Pollution'',
          sw_issue_severity = ''high''\<rparr>]) @
     [\<lparr>sw_id = ''w-1'', sw_issue_id = ''SNYK-JS-LODASH-1'', sw_project_id = ''p1'',
       sw_project_name = ''shop'', sw_reason = ''Upgrade planned'',
       sw_waiver_type = ''temporary'', sw_created_date = ''2026-08-16T00:00:00Z'',
       sw_expiry_date = ''unknown'', sw_created_by = ''dev'',
       sw_is_active = True, sw_issue_title = ''Prototype Pollution'',
       sw_issue_severity = ''high''\<rparr>]"
  by (simp add: get_all_waivers_def project_waivers_def service_with_fields make_request_ok
      get_or_def all_waivers_step_def waiver_issue_def waiver_json_expiring_def
      waiver_is_active_def parse_example_simps datetime_now_def or_unknown_def Let_def)

text \<open>
  The theorem at the example service, for waivers with the expiry \<open>soon\<close> (not a
  date), with no expiry, and with an expiry in 2020: only the last is selected by the
  cleanup.
\<close>

theorem unusable_expiry_is_active_witness:
  "expiry_unusable service (wj_expiry (waiver_json_expiring (Some ''soon'')))
   \<and> waiver_is_active service ''soon'' start = (True, start)
   \<and> sw_is_active (existing_waiver\<lparr>sw_expiry_date := ''soon''\<rparr>)
   \<and> (\<exists>w s'. all_waivers_step service ''p1'' ''shop'' True (waiver_json_expiring (Some ''soon''))
         [] start = (Inr [w], s') \<and> sw_id w = ''w-1'' \<and> sw_is_active w)
   \<and> existing_waiver\<lparr>sw_expiry_date := []\<rparr>
        \<in> set (fst (get_existing_waivers_for_issue (service_with [waiver_json_expiring None])
                    ''SNYK-JS-LODASH-1'' ''p1'' start))
   \<and> sw_is_active (existing_waiver\<lparr>sw_expiry_date := []\<rparr>)
   \<and> fst (smart_add_waiver (service_with [waiver_json_expiring None]) ''SNYK-JS-LODASH-1'' ''p1''
           ''Upgrade planned'' ''temporary'' 90 True start)
       = Inr \<lparr>status = ''skipped_existing_waiver''\<rparr>
   \<and> map sw_expiry_date
       (fst (get_all_waivers
          (service_with [waiver_json_expiring (Some ''2020-01-01T00:00:00Z''),
                         waiver_json_expiring None]) [''p1''] True start)) = [''unknown'']
   \<and> map sw_expiry_date
       (fst (expired_waivers
          (service_with [waiver_json_expiring (Some ''2020-01-01T00:00:00Z''),
                         waiver_json_expiring None]) [''p1''] start)) = [''2020-01-01T00:00:00Z'']
   \<and> \<not> expiry_unusable
         (service_with [waiver_json_expiring (Some ''2020-01-01T00:00:00Z''),
                        waiver_json_expiring None]) (Some ''2020-01-01T00:00:00Z'')"
proof -
  let ?soon = "waiver_json_expiring (Some ''soon'')"
  let ?none = "service_with [waiver_json_expiring None]"
  let ?two = "service_with [waiver_json_expiring (Some ''2020-01-01T00:00:00Z''),
                         waiver_json_expiring None]"
  let ?mute = "existing_waiver\<lparr>sw_expiry_date := []\<rparr>"
  let ?old = "\<lparr>sw_id = ''w-1'', sw_issue_id = ''SNYK-JS-LODASH-1'', sw_project_id = ''p1'',
          sw_project_name = ''shop'', sw_reason = ''Upgrade planned'',
          sw_waiver_type = ''temporary'', sw_created_date = ''2026-08-16T00:00:00Z'',
          sw_expiry_date = ''2020-01-01T00:00:00Z'', sw_created_by = ''dev'',
          sw_is_active = False, sw_issue_title = ''Prototype Pollution'',
          sw_issue_severity = ''high''\<rparr>"
  let ?new = "\<lparr>sw_id = ''w-1'', sw_issue_id = ''SNYK-JS-LODASH-1'', sw_project_id = ''p1'',
       sw_project_name = ''shop'', sw_reason = ''Upgrade planned'',
       sw_waiver_type = ''temporary'', sw_created_date = ''2026-08-16T00:00:00Z'',
       sw_expiry_date = ''unknown'', sw_created_by = ''dev'',
       sw_is_active = True, sw_issue_title = ''Prototype Pollution'',
       sw_issue_severity = ''high''\<rparr>"
  note soon = unusable_expiry_is_active [of service ?soon start "''SNYK-JS-LODASH-1''" "''p1''"
      "''shop''" True "[]" "''Upgrade planned''" "''temporary''" 90 "[''p1'']"]
  note none = unusable_expiry_is_active [of ?none ?soon start "''SNYK-JS-LODASH-1''" "''p1''"
      "''shop''" True "[]" "''Upgrade planned''" "''temporary''" 90 "[''p1'']"]
  note two = unusable_expiry_is_active [of ?two ?soon start "''SNYK-JS-LODASH-1''" "''p1''"
      "''shop''" True "[]" "''Upgrade planned''" "''temporary''" 90 "[''p1'']"]
  have u: "expiry_unusable service (wj_expiry ?soon)"
    by (simp add: expiry_unusable_def waiver_json_expiring_def service_def parse_example_simps)
  have a: "waiver_is_active service ''soon'' start = (True, start)"
    using soon u by (simp add: waiver_json_expiring_def get_or_def)
  have "existing_waiver_of service ''SNYK-JS-LODASH-1'' ''p1'' ?soon start =
      (Inr (existing_waiver\<lparr>sw_expiry_date := ''soon''\<rparr>), start)"
    by (simp add: existing_waiver_of_def a waiver_json_expiring_def get_or_def existing_waiver_def)
  then have b: "sw_is_active (existing_waiver\<lparr>sw_expiry_date := ''soon''\<rparr>)"
    using soon u by blast
  have "wj_id ?soon = Some ''w-1''"
    by (simp add: waiver_json_expiring_def)
  then have st: "\<exists>w s'. all_waivers_step service ''p1'' ''shop'' True ?soon [] start
        = (Inr ([] @ [w]), s') \<and> sw_id w = ''w-1'' \<and> sw_is_active w"
    using soon u by blast
  have ex: "get_existing_waivers_for_issue ?none ''SNYK-JS-LODASH-1'' ''p1'' start =
      ([?mute], start\<lparr>sent := sent start @ [listing]\<rparr>)"
    by (simp add: get_existing_waivers_for_issue_def service_with_fields make_request_ok
        api_request_def listing_def service_def existing_waiver_of_def waiver_json_expiring_def
        get_or_def waiver_is_active_def existing_waiver_def)
  then have m: "?mute \<in> set (fst (get_existing_waivers_for_issue ?none ''SNYK-JS-LODASH-1''
      ''p1'' start))"
    by simp
  have "expiry_unusable ?none (Some (sw_expiry_date ?mute))"
    by (simp add: expiry_unusable_def)
  with m have ma: "sw_is_active ?mute"
    using none by blast
  have "make_request (plain_api ?none)
          (api_request ?none ''GET''
             (''/rest/orgs/'' @ org_id ?none @ ''/projects/'' @ ''p1'' @ ''/issues/''
                @ ''SNYK-JS-LODASH-1'')) start
          = (Inr \<lparr>status_code = 200, retry_after = None, json = Some ()\<rparr>,
             start\<lparr>sent := sent start @ [probe]\<rparr>)
        \<and> make_request (waivers_api ?none)
            (api_request ?none ''GET''
               (''/rest/orgs/'' @ org_id ?none @ ''/projects/'' @ ''p1''
                  @ ''/issues/'' @ ''SNYK-JS-LODASH-1'' @ ''/waivers''))
            (start\<lparr>sent := sent start @ [probe]\<rparr>)
          = (Inr \<lparr>status_code = 200, retry_after = None,
                  json = Some [waiver_json_expiring None]\<rparr>,
             start\<lparr>sent := sent start @ [probe, listing]\<rparr>)
        \<and> json \<lparr>status_code = 200, retry_after = None,
                  json = Some [waiver_json_expiring None]\<rparr> = Some [waiver_json_expiring None]
        \<and> list_all (\<lambda>d. wj_id d \<noteq> None) [waiver_json_expiring None]
        \<and> list_ex (\<lambda>d. expiry_unusable ?none (wj_expiry d)) [waiver_json_expiring None]"
    by (simp add: service_with_fields make_request_ok api_request_def probe_def listing_def
        service_def waiver_json_expiring_def expiry_unusable_def)
  then have sk: "fst (smart_add_waiver ?none ''SNYK-JS-LODASH-1'' ''p1''
           ''Upgrade planned'' ''temporary'' 90 True start)
       = Inr \<lparr>status = ''skipped_existing_waiver''\<rparr>"
    using none by blast
  have all: "fst (get_all_waivers ?two [''p1''] True start) = [?new]"
    using service_with_all_waivers [of True] by simp
  have "expiry_unusable ?two (Some (sw_expiry_date ?new))"
    by (simp add: expiry_unusable_def service_with_fields parse_example_simps)
  then have "sw_is_active ?new"
    using two all by simp
  have exp: "fst (expired_waivers ?two [''p1''] start) = [?old]"
    using service_with_all_waivers [of False]
    by (simp add: expired_waivers_fst)
  then have nu: "\<not> expiry_unusable ?two (Some ''2020-01-01T00:00:00Z'')"
    using two by simp
  from u a b st m ma sk all exp nu show ?thesis by simp
qed

section \<open>Properties of the waivers for one issue across projects\<close>






subsection \<open>A run over three projects of the example service\<close>


text \<open>The match folds the capital letters beyond ASCII as well.\<close>

lemma lower_latin1:
  "lower (''CAF'' @ [CHR 0xC9]) = ''caf'' @ [CHR 0xE9]"
  "lower [CHR 0xD7, CHR 0xDF, CHR 0xFF] = [CHR 0xD7, CHR 0xDF, CHR 0xFF]"
  "matching_issues (''caf'' @ [CHR 0xE9]) [(fetched_lodash p)\<lparr>si_title := ''CAF'' @ [CHR 0xC9]\<rparr>]
     = [(fetched_lodash p)\<lparr>si_title := ''CAF'' @ [CHR 0xC9]\<rparr>]"
  by (simp_all add: matching_issues_def lower_def lower_char_def upper_letters_def
      lower_letters_def startswith_def)



end
